theory Spec2Isabelle
  imports Main "HOL-Library.Word" "HOL-Library.Char_ord" "HOL-Library.List_Lexorder"
begin

section \<open>Undefined behaviour as error values\<close>

text \<open>
  The source raises no exception and checks little: what goes wrong in it is undefined
  behaviour. Each kind the modelled code can reach is a value of \<open>error\<close>, and every
  operation that can reach one returns \<open>error + 'a\<close> (\<open>Inl\<close> the error).
  \<^item> \<open>ExtractionFailed\<close>: \<^verbatim>\<open>stringTo<T>\<close> returns its local \<^verbatim>\<open>T value;\<close> although
    \<^verbatim>\<open>strstr >> value\<close> stored nothing in it (the input was empty or all white space):
    the local was never initialised.
  \<^item> \<open>PopBackEmpty\<close>: \<^verbatim>\<open>pop_back()\<close> on an empty \<^verbatim>\<open>std::vector\<close>.
  \<^item> \<open>NullString\<close>: a \<^verbatim>\<open>std::string\<close> constructed from a null \<^verbatim>\<open>char*\<close>.
  \<^item> \<open>NullParam\<close>: a member call through a null \<^verbatim>\<open>ctkParamDataInterface*\<close>, which
    \<^verbatim>\<open>operator[]\<close> of the parameter map default-inserts for a missing key.
  \<^item> \<open>OutOfBounds\<close>: a read of \<^verbatim>\<open>argv[j]\<close> beyond the array.
\<close>

datatype error = ExtractionFailed | PopBackEmpty | NullString | NullParam | OutOfBounds

section \<open>StringUtil.hxx\<close>

subsection \<open>The input string stream\<close>

text \<open>
  \<^verbatim>\<open>std::istringstream\<close>: the characters not yet read, and the state bits. The source
  reads its streams with \<^verbatim>\<open>std::getline\<close> only, and such a stream is in one of three
  states: good, eofbit set, or eofbit and failbit set.

  \<^verbatim>\<open>std::getline(str, item, delim)\<close> is the standard library's ([string.io]): when the
  stream is not good the sentry sets failbit and \<open>item\<close> is left as it was; otherwise
  \<open>item\<close> is erased and characters are taken up to the delimiter (which is extracted
  and dropped) or up to the end of the input (which sets eofbit); failbit is set when
  nothing at all was extracted.
\<close>

datatype iostate = Good | Eof | EofFail

record istream =
  buf :: string
  rdstate :: iostate

definition istringstream :: "string \<Rightarrow> istream" where
  "istringstream inp = \<lparr>buf = inp, rdstate = Good\<rparr>"

definition eof :: "istream \<Rightarrow> bool" where
  "eof str = (rdstate str \<noteq> Good)"

definition fail :: "istream \<Rightarrow> bool" where
  "fail str = (rdstate str = EofFail)"

definition getline :: "istream \<Rightarrow> string \<Rightarrow> char \<Rightarrow> istream \<times> string" where
  "getline str item delim =
     (if rdstate str \<noteq> Good then (str\<lparr>rdstate := EofFail\<rparr>, item)
      else
        (case dropWhile (\<lambda>c. c \<noteq> delim) (buf str) of
           [] \<Rightarrow> (\<lparr>buf = [], rdstate = (if buf str = [] then EofFail else Eof)\<rparr>, buf str)
         | _ # rest \<Rightarrow>
             (\<lparr>buf = rest, rdstate = Good\<rparr>, takeWhile (\<lambda>c. c \<noteq> delim) (buf str))))"

subsection \<open>Scalar conversions\<close>

text \<open>
  \<^verbatim>\<open>toString<int>\<close> is \<^verbatim>\<open>ostream << int\<close>: the decimal digits, with a leading minus sign
  for a negative value. \<^verbatim>\<open>int\<close> is 32 bits wide. \<open>show_nat n\<close> is the digits of a number
  \<open>n\<close> that is not negative.
\<close>

definition digit_char :: "nat \<Rightarrow> char" where
  "digit_char d = ''0123456789'' ! d"

function show_nat :: "int \<Rightarrow> string" where
  "show_nat n =
     (if n < 10 then [digit_char (nat n)]
      else show_nat (n div 10) @ [digit_char (nat (n mod 10))])"
  by pat_completeness auto
termination
  by (relation "measure nat") auto

declare show_nat.simps [simp del]

definition toString_int :: "32 word \<Rightarrow> string" where
  "toString_int v = (if sint v < 0 then CHR ''-'' # show_nat (- sint v) else show_nat (sint v))"

text \<open>
  \<^verbatim>\<open>stringTo<int>\<close> is \<^verbatim>\<open>istream >> int\<close> with the default flags (skipws, dec): leading
  white space is skipped, an optional sign and the longest run of decimal digits are
  read, and what follows is left unread. When the input is empty or all white space,
  the sentry fails, nothing is stored, and \<^verbatim>\<open>stringTo\<close> returns its uninitialised local.
  Otherwise a value is always stored and returned: 0 when no digit was read, the
  largest or smallest \<^verbatim>\<open>int\<close> when the digits are out of range, and the number read
  in all other cases (failbit, which the first two set, is never looked at).
\<close>

definition isspace :: "char \<Rightarrow> bool" where
  "isspace c = (c \<in> set [CHR '' '', CHR 0x09, CHR 0x0A, CHR 0x0B, CHR 0x0C, CHR 0x0D])"

definition isdigit :: "char \<Rightarrow> bool" where
  "isdigit c = (c \<in> set ''0123456789'')"

definition digits_value :: "string \<Rightarrow> int" where
  "digits_value ds = foldl (\<lambda>a c. 10 * a + (of_char c - 48)) 0 ds"

definition stringTo_int :: "string \<Rightarrow> error + 32 word" where
  "stringTo_int inp =
     (let s = dropWhile isspace inp;
          neg = (s \<noteq> [] \<and> hd s = CHR ''-'');
          body = (if s \<noteq> [] \<and> (hd s = CHR ''-'' \<or> hd s = CHR ''+'') then tl s else s);
          ds = takeWhile isdigit body;
          v = (if neg then - digits_value ds else digits_value ds)
      in if s = [] then Inl ExtractionFailed
         else if ds = [] then Inr 0
         else if v < - (2 ^ 31) then Inr (word_of_int (- (2 ^ 31)))
         else if 2 ^ 31 \<le> v then Inr (word_of_int (2 ^ 31 - 1))
         else Inr (word_of_int v))"

definition toString_string :: "string \<Rightarrow> string" where
  "toString_string inp = inp"

definition stringTo_string :: "string \<Rightarrow> error + string" where
  "stringTo_string inp = Inr inp"

definition toString_bool :: "bool \<Rightarrow> string" where
  "toString_bool inp = (if inp then ''true'' else ''false'')"

definition stringTo_bool :: "string \<Rightarrow> error + bool" where
  "stringTo_bool inp =
     (if inp = ''true'' \<or> inp = ''yes'' then Inr True
      else if inp = ''false'' \<or> inp = ''no'' then Inr False
      else (case stringTo_int inp of Inl e \<Rightarrow> Inl e | Inr v \<Rightarrow> Inr (0 < sint v)))"

text \<open>
  \<^verbatim>\<open>float\<close> and \<^verbatim>\<open>double\<close> are not modelled as numbers. Their two stream conversions are
  parameters of everything below that can reach them: the types \<open>'f\<close>, \<open>'d\<close> stand for
  \<^verbatim>\<open>float\<close>, \<^verbatim>\<open>double\<close>, and every theorem holds for whatever the conversions are.
\<close>

record ('f, 'd) float_io =
  toString_float :: "'f \<Rightarrow> string"
  stringTo_float :: "string \<Rightarrow> error + 'f"
  toString_double :: "'d \<Rightarrow> string"
  stringTo_double :: "string \<Rightarrow> error + 'd"

subsection \<open>Vector conversions\<close>

fun vectortoString :: "('a \<Rightarrow> string) \<Rightarrow> 'a list \<Rightarrow> string \<Rightarrow> string" where
  "vectortoString ts [] delim = []"
| "vectortoString ts (x # xs) delim = foldl (\<lambda>ret y. ret @ delim @ ts y) (ts x) xs"

text \<open>
  The loop of \<^verbatim>\<open>stringToVector\<close>: its condition is the \<^verbatim>\<open>getline\<close> call itself (true while
  failbit is clear), its increment expression has no effect. It returns the last
  \<open>item\<close> together with the vector.
\<close>

function stringToVector_loop ::
  "(string \<Rightarrow> error + 'a) \<Rightarrow> char \<Rightarrow> istream \<Rightarrow> string \<Rightarrow> 'a list \<Rightarrow> error + (string \<times> 'a list)"
where
  "stringToVector_loop conv delim str item ret =
     (case getline str item delim of
        (str', item') \<Rightarrow>
          if fail str' then Inr (item', ret)
          else (case conv item' of
                  Inl e \<Rightarrow> Inl e
                | Inr v \<Rightarrow> stringToVector_loop conv delim str' item' (ret @ [v])))"
  by pat_completeness auto
termination
proof (relation "measure (\<lambda>(conv, delim, str, item, ret).
                    length (buf str) + (if rdstate str = Good then 1 else 0))", goal_cases)
  case 1
  show ?case by simp
next
  case (2 conv delim str item ret str' item' v)
  from 2 have good: "rdstate str = Good"
    by (auto simp: getline_def fail_def split: if_splits)
  show ?case
  proof (cases "dropWhile (\<lambda>c. c \<noteq> delim) (buf str)")
    case Nil
    with 2 good have "buf str' = []" "rdstate str' \<noteq> Good"
      by (auto simp: getline_def split: if_splits)
    with good show ?thesis by simp
  next
    case (Cons a rest)
    with 2 good have s': "str' = \<lparr>buf = rest, rdstate = Good\<rparr>"
      by (simp add: getline_def)
    have "length (a # rest) \<le> length (buf str)"
      using length_dropWhile_le [of "\<lambda>c. c \<noteq> delim" "buf str"] Cons by simp
    with s' good show ?thesis by simp
  qed
qed

declare stringToVector_loop.simps [simp del]

definition stringToVector :: "(string \<Rightarrow> error + 'a) \<Rightarrow> string \<Rightarrow> char \<Rightarrow> error + 'a list" where
  "stringToVector conv inp delim =
     (case stringToVector_loop conv delim (istringstream inp) [] [] of
        Inl e \<Rightarrow> Inl e
      | Inr (item, ret) \<Rightarrow>
          if item = [] then (if ret = [] then Inl PopBackEmpty else Inr (butlast ret))
          else Inr ret)"

subsection \<open>Trimming\<close>

definition rtrim :: "string \<Rightarrow> string \<Rightarrow> string" where
  "rtrim str t = rev (dropWhile (\<lambda>c. c \<in> set t) (rev str))"

definition ltrim :: "string \<Rightarrow> string \<Rightarrow> string" where
  "ltrim str t = dropWhile (\<lambda>c. c \<in> set t) str"

definition trim :: "string \<Rightarrow> string \<Rightarrow> string" where
  "trim str t = rtrim (ltrim str t) t"

section \<open>ctkCmdLineApplication.hxx\<close>

subsection \<open>Parameter objects\<close>

text \<open>
  The member \<^verbatim>\<open>value\<close> of a parameter object has one of the nine types for which
  \<^verbatim>\<open>getTypeName\<close>, \<^verbatim>\<open>toString\<close> and \<^verbatim>\<open>stringTo\<close> are specialised.
\<close>

datatype ('f, 'd) cvalue =
    VBool bool
  | VInt "32 word"
  | VFloat 'f
  | VDouble 'd
  | VString string
  | VIntVec "32 word list"
  | VFloatVec "'f list"
  | VDoubleVec "'d list"
  | VStringVec "string list"

fun getTypeName :: "('f, 'd) cvalue \<Rightarrow> string" where
  "getTypeName (VBool _) = ''boolean''"
| "getTypeName (VInt _) = ''integer''"
| "getTypeName (VFloat _) = ''float''"
| "getTypeName (VDouble _) = ''double''"
| "getTypeName (VString _) = ''string''"
| "getTypeName (VIntVec _) = ''integer-vector''"
| "getTypeName (VFloatVec _) = ''float-vector''"
| "getTypeName (VDoubleVec _) = ''double-vector''"
| "getTypeName (VStringVec _) = ''string-vector''"

fun toString :: "('f, 'd) float_io \<Rightarrow> ('f, 'd) cvalue \<Rightarrow> string" where
  "toString io (VBool v) = toString_bool v"
| "toString io (VInt v) = toString_int v"
| "toString io (VFloat v) = toString_float io v"
| "toString io (VDouble v) = toString_double io v"
| "toString io (VString v) = toString_string v"
| "toString io (VIntVec v) = vectortoString toString_int v '',''"
| "toString io (VFloatVec v) = vectortoString (toString_float io) v '',''"
| "toString io (VDoubleVec v) = vectortoString (toString_double io) v '',''"
| "toString io (VStringVec v) = vectortoString toString_string v '',''"

text \<open>
  \<^verbatim>\<open>stringTo<T>\<close>: the type \<open>T\<close> is that of the member being assigned, given here by the
  value the member holds.
\<close>

fun stringTo :: "('f, 'd) float_io \<Rightarrow> ('f, 'd) cvalue \<Rightarrow> string \<Rightarrow> error + ('f, 'd) cvalue" where
  "stringTo io (VBool _) inp = map_sum id VBool (stringTo_bool inp)"
| "stringTo io (VInt _) inp = map_sum id VInt (stringTo_int inp)"
| "stringTo io (VFloat _) inp = map_sum id VFloat (stringTo_float io inp)"
| "stringTo io (VDouble _) inp = map_sum id VDouble (stringTo_double io inp)"
| "stringTo io (VString _) inp = map_sum id VString (stringTo_string inp)"
| "stringTo io (VIntVec _) inp = map_sum id VIntVec (stringToVector stringTo_int inp (CHR '',''))"
| "stringTo io (VFloatVec _) inp =
     map_sum id VFloatVec (stringToVector (stringTo_float io) inp (CHR '',''))"
| "stringTo io (VDoubleVec _) inp =
     map_sum id VDoubleVec (stringToVector (stringTo_double io) inp (CHR '',''))"
| "stringTo io (VStringVec _) inp =
     map_sum id VStringVec (stringToVector stringTo_string inp (CHR '',''))"

text \<open>
  The classes \<^verbatim>\<open>ctkParamData##TYPE\<close> that \<^verbatim>\<open>DEFINE_TYPE_SPECIALIZATION\<close> generates in
  ctkParam.hxx, with the string their \<^verbatim>\<open>getType\<close> returns.
\<close>

datatype special =
    EnumInt | EnumFloat | EnumDouble | EnumString
  | File | Directory | Image | Geometry | Point | Region | Double

fun TYPESTR :: "special \<Rightarrow> string" where
  "TYPESTR EnumInt = ''integer-enumeration''"
| "TYPESTR EnumFloat = ''float-enumeration''"
| "TYPESTR EnumDouble = ''double-enumeration''"
| "TYPESTR EnumString = ''string-enumeration''"
| "TYPESTR File = ''file''"
| "TYPESTR Directory = ''directory''"
| "TYPESTR Image = ''image''"
| "TYPESTR Geometry = ''geometry''"
| "TYPESTR Point = ''point''"
| "TYPESTR Region = ''region''"
| "TYPESTR Double = ''double''"

text \<open>
  \<^verbatim>\<open>std::map<std::string, V>\<close> as an association list kept in key order, the order in
  which the source iterates. \<open>map_of m k\<close> is \<^verbatim>\<open>m.find(k)\<close>, \<open>map_assign k v m\<close> is
  \<^verbatim>\<open>m[k] = v\<close>, and \<^verbatim>\<open>m[k]\<close> read as a value is \<open>map_at k d m\<close> in the map
  \<open>map_touch k d m\<close>, where \<open>d\<close> is the value-initialised \<open>V\<close> that \<^verbatim>\<open>operator[]\<close>
  inserts for a missing key.
\<close>

type_synonym ('k, 'v) std_map = "('k \<times> 'v) list"

fun map_assign :: "'k::linorder \<Rightarrow> 'v \<Rightarrow> ('k, 'v) std_map \<Rightarrow> ('k, 'v) std_map" where
  "map_assign k v [] = [(k, v)]"
| "map_assign k v ((k', v') # m) =
     (if k < k' then (k, v) # (k', v') # m
      else if k = k' then (k, v) # m
      else (k', v') # map_assign k v m)"

definition map_at :: "'k \<Rightarrow> 'v \<Rightarrow> ('k, 'v) std_map \<Rightarrow> 'v" where
  "map_at k d m = (case map_of m k of None \<Rightarrow> d | Some v \<Rightarrow> v)"

definition map_touch :: "'k::linorder \<Rightarrow> 'v \<Rightarrow> ('k, 'v) std_map \<Rightarrow> ('k, 'v) std_map" where
  "map_touch k d m = (case map_of m k of None \<Rightarrow> map_assign k d m | Some v \<Rightarrow> m)"

text \<open>
  \<^verbatim>\<open>ctkParamDataInterface\<close> with its implementations: \<open>cls\<close> is \<open>None\<close> for the template
  class \<^verbatim>\<open>ctkParamData<T>\<close> and names the generated class otherwise; \<open>val\<close> is the member
  \<^verbatim>\<open>value\<close>.
\<close>

record ('f, 'd) ctkParamDataInterface =
  cls :: "special option"
  val :: "('f, 'd) cvalue"
  tags :: "(string, string) std_map"
  attribs :: "(string, string) std_map"
  constraints :: "(string, string) std_map"

definition getType :: "('f, 'd) ctkParamDataInterface \<Rightarrow> string" where
  "getType p = (case cls p of None \<Rightarrow> getTypeName (val p) | Some t \<Rightarrow> TYPESTR t)"

definition setString ::
  "('f, 'd) float_io \<Rightarrow> ('f, 'd) ctkParamDataInterface \<Rightarrow> string \<Rightarrow>
   error + ('f, 'd) ctkParamDataInterface"
where
  "setString io p new_value =
     (case stringTo io (val p) new_value of Inl e \<Rightarrow> Inl e | Inr v \<Rightarrow> Inr (p\<lparr>val := v\<rparr>))"

definition getString :: "('f, 'd) float_io \<Rightarrow> ('f, 'd) ctkParamDataInterface \<Rightarrow> string" where
  "getString io p = toString io (val p)"

text \<open>A freshly constructed parameter object: empty maps, \<open>v\<close> the initial \<^verbatim>\<open>value\<close>.\<close>

definition ctkParamData :: "special option \<Rightarrow> ('f, 'd) cvalue \<Rightarrow> ('f, 'd) ctkParamDataInterface" where
  "ctkParamData c v = \<lparr>cls = c, val = v, tags = [], attribs = [], constraints = []\<rparr>"

subsection \<open>The application\<close>

record ('f, 'd) ctkCmdLineApplication =
  param :: "(string, (string, ('f, 'd) ctkParamDataInterface) std_map) std_map"
  commandLineFlags :: "(string, string \<times> string) std_map"
  app_tags :: "(string, string) std_map"

text \<open>The constructor: \<^verbatim>\<open>tags["description"]=description; tags["title"]=titel;\<close>\<close>

definition ctkCmdLineApplication :: "string \<Rightarrow> string \<Rightarrow> ('f, 'd) ctkCmdLineApplication" where
  "ctkCmdLineApplication titel description =
     \<lparr>param = [], commandLineFlags = [],
      app_tags = map_assign ''title'' titel (map_assign ''description'' description [])\<rparr>"

text \<open>The setters that \<^verbatim>\<open>CTK_APP_DEFINE_TAG(XMLTAG,FUNCNAME)\<close> defines.\<close>

definition set_tag ::
  "string \<Rightarrow> string \<Rightarrow> ('f, 'd) ctkCmdLineApplication \<Rightarrow> ('f, 'd) ctkCmdLineApplication"
where
  "set_tag XMLTAG str app = app\<lparr>app_tags := map_assign XMLTAG str (app_tags app)\<rparr>"

definition setCategory where "setCategory = set_tag ''category''"
definition setTitel where "setTitel = set_tag ''titel''"
definition setDescription where "setDescription = set_tag ''description''"
definition setVersion where "setVersion = set_tag ''version''"
definition setDocumentationUrl where "setDocumentationUrl = set_tag ''documentationUrl''"
definition setLicense where "setLicense = set_tag ''license''"
definition setContributor where "setContributor = set_tag ''contributor''"
definition setAcknowledgements where "setAcknowledgements = set_tag ''acknowledgements''"

definition setFlag ::
  "string \<Rightarrow> string \<Rightarrow> string \<Rightarrow> ('f, 'd) ctkCmdLineApplication \<Rightarrow> ('f, 'd) ctkCmdLineApplication"
where
  "setFlag flag section key app =
     app\<lparr>commandLineFlags := map_assign flag (section, key) (commandLineFlags app)\<rparr>"

definition getParam ::
  "('f, 'd) ctkCmdLineApplication \<Rightarrow> string \<Rightarrow> string \<Rightarrow> ('f, 'd) ctkParamDataInterface option"
where
  "getParam app section key =
     (case map_of (param app) section of None \<Rightarrow> None | Some keys \<Rightarrow> map_of keys key)"

text \<open>
  \<^verbatim>\<open>param[section][key]=p\<close>. The map holds pointers; a call \<^verbatim>\<open>q->setString(s)\<close> on the
  pointer \<open>q\<close> stored at \<open>(section, key)\<close> is this assignment of the changed object.
\<close>

definition param_assign ::
  "('f, 'd) ctkCmdLineApplication \<Rightarrow> string \<Rightarrow> string \<Rightarrow> ('f, 'd) ctkParamDataInterface \<Rightarrow>
   ('f, 'd) ctkCmdLineApplication"
where
  "param_assign app section key p =
     app\<lparr>param := map_assign section (map_assign key p (map_at section [] (param app))) (param app)\<rparr>"


subsection \<open>Ini text\<close>

text \<open>
  The loop of \<^verbatim>\<open>parse\<close>. \<^verbatim>\<open>param[list][key]\<close> is a null pointer when the key was never
  declared in the section, and the call through it is undefined.
\<close>

function parse_loop ::
  "('f, 'd) float_io \<Rightarrow> ('f, 'd) ctkCmdLineApplication \<Rightarrow> istream \<Rightarrow> string \<Rightarrow>
   error + ('f, 'd) ctkCmdLineApplication"
where
  "parse_loop io app strstr list =
     (if eof strstr then Inr app
      else
        (case getline strstr [] (CHR ''\<newline>'') of
           (strstr', line) \<Rightarrow>
             if length line < 2 \<or> hd line = CHR ''#'' then parse_loop io app strstr' list
             else if hd line = CHR ''['' then
               parse_loop io app strstr' (take (length line - 2) (drop 1 line))
             else
               (case getline (istringstream line) [] (CHR ''='') of
                  (linestr, key) \<Rightarrow>
                    (case getline linestr [] (CHR 0x00) of
                       (linestr', value) \<Rightarrow>
                         (case getParam app list (trim key [CHR '' '', CHR 0x09]) of
                            None \<Rightarrow> Inl NullParam
                          | Some p \<Rightarrow>
                              (case setString io p (trim value [CHR '' '', CHR 0x09]) of
                                 Inl e \<Rightarrow> Inl e
                               | Inr p' \<Rightarrow>
                                   parse_loop io (param_assign app list (trim key [CHR '' '', CHR 0x09]) p')
                                     strstr' list))))))"
  by pat_completeness auto
termination
proof (relation "measure (\<lambda>(io, app, strstr, list).
                    (if rdstate strstr = Good then Suc (length (buf strstr)) else 0))", goal_cases)
  case 1
  show ?case by simp
next
  case (2 io app strstr list strstr' line)
  then show ?case
    using length_dropWhile_le [of "\<lambda>c. c \<noteq> CHR ''\<newline>''" "buf strstr"]
    by (auto simp: getline_def eof_def split: if_splits list.splits)
next
  case (3 io app strstr list strstr' line)
  then show ?case
    using length_dropWhile_le [of "\<lambda>c. c \<noteq> CHR ''\<newline>''" "buf strstr"]
    by (auto simp: getline_def eof_def split: if_splits list.splits)
next
  case (4 io app strstr list strstr' line)
  then show ?case
    using length_dropWhile_le [of "\<lambda>c. c \<noteq> CHR ''\<newline>''" "buf strstr"]
    by (auto simp: getline_def eof_def split: if_splits list.splits)
qed

declare parse_loop.simps [simp del]

definition parse ::
  "('f, 'd) float_io \<Rightarrow> ('f, 'd) ctkCmdLineApplication \<Rightarrow> string \<Rightarrow>
   error + ('f, 'd) ctkCmdLineApplication"
where
  "parse io app ini = parse_loop io app (istringstream ini) ''Global''"

text \<open>
  What the process can see and change: the application object, the files (a map from a
  path to the content of the file there), and what has been written to \<^verbatim>\<open>std::cout\<close>
  and \<^verbatim>\<open>std::cerr\<close>.
\<close>

record ('f, 'd) world =
  app :: "('f, 'd) ctkCmdLineApplication"
  files :: "(string, string) std_map"
  cout :: string
  cerr :: string

definition save_text :: "('f, 'd) float_io \<Rightarrow> ('f, 'd) ctkCmdLineApplication \<Rightarrow> string" where
  "save_text io a =
     concat (map (\<lambda>(section, keys).
       ''\<newline>['' @ section @ '']\<newline>\<newline>'' @
       concat (map (\<lambda>(key, p). key @ '' = '' @ getString io p @ ''\<newline>'') keys) @
       ''\<newline>\<newline>'') (param a))"

text \<open>\<^verbatim>\<open>save\<close>: the file is taken to open; the source has no check of it.\<close>

definition save :: "('f, 'd) float_io \<Rightarrow> ('f, 'd) world \<Rightarrow> string \<Rightarrow> ('f, 'd) world" where
  "save io w iniFile = w\<lparr>files := map_assign iniFile (save_text io (app w)) (files w)\<rparr>"

definition load ::
  "('f, 'd) float_io \<Rightarrow> ('f, 'd) world \<Rightarrow> string \<Rightarrow> error + (bool \<times> ('f, 'd) world)"
where
  "load io w iniFile =
     (case map_of (files w) iniFile of
        None \<Rightarrow> Inr (False, w)
      | Some contents \<Rightarrow>
          (case parse io (app w) (snd (getline (istringstream contents) [] (CHR 0x00))) of
             Inl e \<Rightarrow> Inl e
           | Inr a \<Rightarrow> Inr (True, w\<lparr>app := a\<rparr>)))"

subsection \<open>The XML description\<close>

definition app_tags_order :: "string list" where
  "app_tags_order =
     [''category'', ''title'', ''description'', ''version'', ''documentation-url'',
      ''license'', ''contributor'', ''acknowledgements'']"

definition xml_app_tags :: "(string, string) std_map \<Rightarrow> string" where
  "xml_app_tags ts =
     concat (map (\<lambda>t. case map_of ts t of
                         None \<Rightarrow> []
                       | Some v \<Rightarrow> ''  <'' @ t @ ''>'' @ v @ ''</'' @ t @ ''>\<newline>'')
               app_tags_order)"

definition xml_attribs :: "(string, string) std_map \<Rightarrow> string" where
  "xml_attribs as =
     concat (map (\<lambda>(k, v). if v \<noteq> [] then '' '' @ k @ ''='' @ [CHR 0x22] @ v @ [CHR 0x22] else [])
               as)"

definition xml_tag :: "string \<times> string \<Rightarrow> error + string" where
  "xml_tag t =
     (case t of (k, v) \<Rightarrow>
        if v = [] then Inr []
        else if k = ''enumeration'' then
          (case stringToVector stringTo_string v (CHR '','') of
             Inl e \<Rightarrow> Inl e
           | Inr enumeration \<Rightarrow>
               Inr (if enumeration \<noteq> [] then
                      ''      <enumeration>\<newline>'' @
                      concat (map (\<lambda>e. ''        <element>'' @ e @ ''</element>\<newline>'')
                                enumeration) @
                      ''      </enumeration>\<newline>''
                    else []))
        else Inr (''      <'' @ k @ ''>'' @ v @ ''</'' @ k @ ''>\<newline>''))"

fun xml_tags :: "(string, string) std_map \<Rightarrow> error + string" where
  "xml_tags [] = Inr []"
| "xml_tags (t # ts) =
     (case xml_tag t of
        Inl e \<Rightarrow> Inl e
      | Inr x \<Rightarrow> (case xml_tags ts of Inl e \<Rightarrow> Inl e | Inr xs \<Rightarrow> Inr (x @ xs)))"

definition xml_constraints :: "(string, string) std_map \<Rightarrow> string" where
  "xml_constraints cs =
     (if cs \<noteq> [] then
        ''      <constraints>\<newline>'' @
        concat (map (\<lambda>(k, v). ''        <'' @ k @ ''>'' @ v @ ''</'' @ k @ ''>\<newline>'') cs) @
        ''      </constraints>\<newline>''
      else [])"

definition xml_param ::
  "('f, 'd) float_io \<Rightarrow> string \<times> ('f, 'd) ctkParamDataInterface \<Rightarrow> error + string"
where
  "xml_param io kp =
     (case kp of (key, p) \<Rightarrow>
        (case xml_tags (tags p) of
           Inl e \<Rightarrow> Inl e
         | Inr ts \<Rightarrow>
             Inr (''    <'' @ getType p @ xml_attribs (attribs p) @ ''>\<newline>'' @
                  ''      <name>'' @ key @ ''</name>\<newline>'' @
                  ''      <default>'' @ getString io p @ ''</default>\<newline>'' @
                  ts @ xml_constraints (constraints p) @
                  ''    </'' @ getType p @ ''>\<newline>'')))"

fun xml_keys ::
  "('f, 'd) float_io \<Rightarrow> (string, ('f, 'd) ctkParamDataInterface) std_map \<Rightarrow> error + string"
where
  "xml_keys io [] = Inr []"
| "xml_keys io (kp # kps) =
     (case xml_param io kp of
        Inl e \<Rightarrow> Inl e
      | Inr x \<Rightarrow> (case xml_keys io kps of Inl e \<Rightarrow> Inl e | Inr xs \<Rightarrow> Inr (x @ xs)))"

fun xml_sections ::
  "('f, 'd) float_io \<Rightarrow> (string, (string, ('f, 'd) ctkParamDataInterface) std_map) std_map \<Rightarrow>
   error + string"
where
  "xml_sections io [] = Inr []"
| "xml_sections io ((section, keys) # rest) =
     (case xml_keys io keys of
        Inl e \<Rightarrow> Inl e
      | Inr ks \<Rightarrow>
          (case xml_sections io rest of
             Inl e \<Rightarrow> Inl e
           | Inr xs \<Rightarrow>
               Inr (''  <parameters>\<newline>'' @
                    ''    <label>'' @ section @ ''</label>\<newline>'' @
                    ''    <description>'' @ section @ '' - Section'' @ ''</description>\<newline>'' @
                    ks @ ''  </parameters>\<newline>'' @ xs)))"

definition getXMLDescription ::
  "('f, 'd) float_io \<Rightarrow> ('f, 'd) ctkCmdLineApplication \<Rightarrow> error + string"
where
  "getXMLDescription io a =
     (case xml_sections io (param a) of
        Inl e \<Rightarrow> Inl e
      | Inr ps \<Rightarrow>
          Inr (''<?xml version='' @ [CHR 0x22] @ ''1.0'' @ [CHR 0x22] @ '' encoding='' @
               [CHR 0x22] @ ''utf-8'' @ [CHR 0x22] @ ''?>\<newline>'' @
               ''<executable>\<newline>'' @ xml_app_tags (app_tags a) @ ps @
               ''</executable>\<newline>''))"

subsection \<open>The synopsis\<close>

text \<open>
  \<^verbatim>\<open>getSynopsis\<close> and \<^verbatim>\<open>printOptionVerbose\<close> read the tag maps with \<^verbatim>\<open>operator[]\<close>, which
  inserts an empty string for a missing key: they change the objects they describe.
  \<open>tags_at k p\<close> is the string \<^verbatim>\<open>p.tags[k]\<close> with the object after the access.
\<close>

definition tags_at ::
  "string \<Rightarrow> ('f, 'd) ctkParamDataInterface \<Rightarrow> string \<times> ('f, 'd) ctkParamDataInterface"
where
  "tags_at k p = (map_at k [] (tags p), p\<lparr>tags := map_touch k [] (tags p)\<rparr>)"

definition printOptionVerbose ::
  "('f, 'd) ctkParamDataInterface \<Rightarrow> string \<times> ('f, 'd) ctkParamDataInterface"
where
  "printOptionVerbose p =
     (case tags_at ''flag'' p of (flag, p1) \<Rightarrow>
      case tags_at ''longflag'' p1 of (longflag, p2) \<Rightarrow>
        if flag = [] \<and> longflag = [] then ([], p2)
        else
          (case tags_at ''description'' p2 of (description, p3) \<Rightarrow>
             ((if flag = [] then '' [--'' @ longflag @ '' <'' @ getType p @ ''>]\<newline>''
               else if longflag = [] then '' [-'' @ flag @ '' <'' @ getType p @ ''>]\<newline>''
               else '' [-'' @ flag @ ''|--'' @ longflag @ '' <'' @ getType p @ ''>]\<newline>'') @
              (if description \<noteq> [] then ''    '' @ description @ ''\<newline>\<newline>'' else []),
              p3)))"

text \<open>
  The body of the first loop over the parameters: the text for one parameter, the index
  under which it is entered into \<^verbatim>\<open>indexed\<close> (if it is), and the object afterwards.
\<close>

definition synopsis_usage ::
  "string \<Rightarrow> ('f, 'd) ctkParamDataInterface \<Rightarrow>
   string \<times> string option \<times> ('f, 'd) ctkParamDataInterface"
where
  "synopsis_usage indent p =
     (case tags_at ''flag'' p of (flag, p1) \<Rightarrow>
        if flag = [] then
          (case tags_at ''longflag'' p1 of (longflag, p2) \<Rightarrow>
             if longflag = [] then
               (case tags_at ''index'' p2 of (index, p3) \<Rightarrow>
                  ([], if index \<noteq> [] then Some index else None, p3))
             else (indent @ ''[--'' @ longflag @ '' <'' @ getType p @ ''>]\<newline>'', None, p2))
        else (indent @ ''[-'' @ flag @ '' <'' @ getType p @ ''>]\<newline>'', None, p1))"

fun synopsis_usage_keys ::
  "string \<Rightarrow> string \<Rightarrow> (string, ('f, 'd) ctkParamDataInterface) std_map \<Rightarrow>
   (string, string \<times> string) std_map \<Rightarrow>
   string \<times> (string, string \<times> string) std_map \<times> (string, ('f, 'd) ctkParamDataInterface) std_map"
where
  "synopsis_usage_keys indent section [] indexed = ([], indexed, [])"
| "synopsis_usage_keys indent section ((key, p) # keys) indexed =
     (case synopsis_usage indent p of (t, i, p') \<Rightarrow>
      case synopsis_usage_keys indent section keys
             (case i of None \<Rightarrow> indexed | Some index \<Rightarrow> map_assign index (section, key) indexed)
      of (ts, indexed', keys') \<Rightarrow> (t @ ts, indexed', (key, p') # keys'))"

fun synopsis_usage_sections ::
  "string \<Rightarrow> (string, (string, ('f, 'd) ctkParamDataInterface) std_map) std_map \<Rightarrow>
   (string, string \<times> string) std_map \<Rightarrow>
   string \<times> (string, string \<times> string) std_map \<times>
   (string, (string, ('f, 'd) ctkParamDataInterface) std_map) std_map"
where
  "synopsis_usage_sections indent [] indexed = ([], indexed, [])"
| "synopsis_usage_sections indent ((section, keys) # rest) indexed =
     (case synopsis_usage_keys indent section keys indexed of (t, indexed', keys') \<Rightarrow>
      case synopsis_usage_sections indent rest indexed' of (ts, indexed'', rest') \<Rightarrow>
        (t @ ts, indexed'', (section, keys') # rest'))"

fun verbose_keys ::
  "(string, ('f, 'd) ctkParamDataInterface) std_map \<Rightarrow>
   string \<times> (string, ('f, 'd) ctkParamDataInterface) std_map"
where
  "verbose_keys [] = ([], [])"
| "verbose_keys ((key, p) # keys) =
     (case printOptionVerbose p of (t, p') \<Rightarrow>
      case verbose_keys keys of (ts, keys') \<Rightarrow> (t @ ts, (key, p') # keys'))"

fun verbose_sections ::
  "(string, (string, ('f, 'd) ctkParamDataInterface) std_map) std_map \<Rightarrow>
   string \<times> (string, (string, ('f, 'd) ctkParamDataInterface) std_map) std_map"
where
  "verbose_sections [] = ([], [])"
| "verbose_sections ((section, keys) # rest) =
     (case verbose_keys keys of (t, keys') \<Rightarrow>
      case verbose_sections rest of (ts, rest') \<Rightarrow>
        (''\<newline>\<newline>'' @ section @ '':\<newline>\<newline>'' @ t @ ts, (section, keys') # rest'))"

text \<open>
  \<^verbatim>\<open>indexed\<close> maps an index to a pointer to an object of the parameter map; here it maps to
  the section and key of that object, and the two loops over it look the object up.
\<close>

definition indexed_types ::
  "string \<Rightarrow> ('f, 'd) ctkCmdLineApplication \<Rightarrow> (string, string \<times> string) std_map \<Rightarrow> string"
where
  "indexed_types indent a indexed =
     concat (map (\<lambda>(index, section, key).
                    case getParam a section key of
                      None \<Rightarrow> []
                    | Some p \<Rightarrow> indent @ ''<'' @ getType p @ ''>'') indexed)"

fun indexed_verbose ::
  "(string, string \<times> string) std_map \<Rightarrow> ('f, 'd) ctkCmdLineApplication \<Rightarrow>
   string \<times> ('f, 'd) ctkCmdLineApplication"
where
  "indexed_verbose [] a = ([], a)"
| "indexed_verbose ((i, section, key) # rest) a =
     (case getParam a section key of
        None \<Rightarrow> indexed_verbose rest a
      | Some p \<Rightarrow>
          (case tags_at ''index'' p of (index, p1) \<Rightarrow>
           case tags_at ''description'' p1 of (description, p2) \<Rightarrow>
           case indexed_verbose rest (param_assign a section key p2) of (ts, a') \<Rightarrow>
             (''\<newline>\<newline>'' @ getType p @ ''('' @ index @ ''):\<newline>'' @
              ''    '' @ description @ ''\<newline>'' @ ts, a')))"

definition getSynopsis ::
  "('f, 'd) ctkCmdLineApplication \<Rightarrow> string \<times> ('f, 'd) ctkCmdLineApplication"
where
  "getSynopsis a =
     (let titel = map_at ''titel'' [] (app_tags a);
          tags1 = map_touch ''titel'' [] (app_tags a);
          indent = ''      '' @ replicate (length titel) (CHR '' '')
      in
        case synopsis_usage_sections indent (param a) [] of (usage, indexed, param1) \<Rightarrow>
        case verbose_sections param1 of (verbose, param2) \<Rightarrow>
        case indexed_verbose indexed (a\<lparr>param := param2\<rparr>) of (iverbose, a3) \<Rightarrow>
          let description = map_at ''description'' [] tags1;
              tags2 = map_touch ''description'' [] tags1;
              contributor = map_at ''contributor'' [] tags2;
              tags3 = map_touch ''contributor'' [] tags2;
              acknowledgements = map_at ''acknowledgements'' [] tags3;
              tags4 = map_touch ''acknowledgements'' [] tags3
          in
            (''USAGE:\<newline>\<newline>'' @
             ''   '' @ ''./'' @ titel @ '' [-h] [--xml]\<newline>'' @
             indent @ ''[--ctk-save-ini <file>] [--ctk-load-ini <file>]\<newline>'' @
             usage @ indexed_types indent (a\<lparr>param := param1\<rparr>) indexed @
             verbose @ iverbose @
             (if description \<noteq> [] then ''\<newline>\<newline>'' @ description @ ''\<newline>\<newline>''
              else []) @
             (if contributor \<noteq> [] then
                ''\<newline>\<newline>Author: '' @ contributor @ ''\<newline>\<newline>''
              else []) @
             (if acknowledgements \<noteq> [] then
                ''\<newline>\<newline>Acknowledgements: '' @ acknowledgements @ ''\<newline>\<newline>''
              else []),
             a3\<lparr>app_tags := tags4\<rparr>))"

subsection \<open>The command line\<close>

text \<open>
  \<open>argv\<close> is the array of \<^verbatim>\<open>char*\<close> as far as it is allocated, a null pointer being
  \<open>None\<close>; \<^verbatim>\<open>main\<close> receives \<open>argc\<close> strings followed by a null pointer. Reading an
  element as a \<^verbatim>\<open>std::string\<close> is undefined for a null pointer and beyond the array.
  The counters \<open>i\<close>, \<open>index\<close> and \<open>handled\<close> are \<^verbatim>\<open>int\<close>s that count up from 0 and stay
  far below the range of \<^verbatim>\<open>int\<close>; \<open>argc\<close> is not negative.
\<close>

definition main_argv :: "string list \<Rightarrow> string option list" where
  "main_argv args = map Some args @ [None]"

definition argv_string :: "string option list \<Rightarrow> nat \<Rightarrow> error + string" where
  "argv_string argv i =
     (if length argv \<le> i then Inl OutOfBounds
      else (case argv ! i of None \<Rightarrow> Inl NullString | Some s \<Rightarrow> Inr s))"

definition expected_value :: "string \<Rightarrow> string" where
  "expected_value cmd =
     ''Expected value but found end of argument list.\<newline>'' @
     ''Ignored command line argument '' @ cmd @ ''\<newline>''"

text \<open>
  The first loop of \<^verbatim>\<open>parseCommandLine\<close>, from the state at the head of an iteration.
  A \<^verbatim>\<open>break\<close> returns as the end of the loop does. \<^verbatim>\<open>cmd[0]\<close> of an empty \<open>cmd\<close> is the
  terminating null character, which is not \<open>-\<close>.
\<close>

function scan ::
  "('f, 'd) float_io \<Rightarrow> nat \<Rightarrow> ('f, 'd) world \<Rightarrow> string option list \<Rightarrow> nat \<Rightarrow> nat \<Rightarrow>
   error + (('f, 'd) world \<times> string option list)"
where
  "scan io argc w argv index i =
     (if \<not> i < argc then Inr (w, argv)
      else
        (case argv_string argv i of
           Inl e \<Rightarrow> Inl e
         | Inr cmd \<Rightarrow>
             if cmd = ''--xml'' then
               (case getXMLDescription io (app w) of
                  Inl e \<Rightarrow> Inl e
                | Inr xml \<Rightarrow> scan io argc (w\<lparr>cout := cout w @ xml\<rparr>) (argv[i := None]) index (i + 1))
             else if cmd = ''--help'' \<or> cmd = ''-h'' then
               (case getSynopsis (app w) of
                  (synopsis, a) \<Rightarrow>
                    scan io argc (w\<lparr>app := a, cout := cout w @ synopsis\<rparr>) (argv[i := None])
                      index (i + 1))
             else if cmd = ''--ctk-save-ini'' \<or> cmd = ''--ctk-load-ini'' then
               (if i = argc - 1 then Inr (w\<lparr>cerr := cerr w @ expected_value cmd\<rparr>, argv)
                else
                  (case argv_string (argv[i := None]) (i + 1) of
                     Inl e \<Rightarrow> Inl e
                   | Inr iniFile \<Rightarrow>
                       if cmd ! 6 = CHR ''s'' then
                         scan io argc (save io w iniFile) (argv[i := None]) index (i + 2)
                       else
                         (case load io w iniFile of
                            Inl e \<Rightarrow> Inl e
                          | Inr (ok, w') \<Rightarrow> scan io argc w' (argv[i := None]) index (i + 2))))
             else if (cmd \<noteq> [] \<and> hd cmd = CHR ''-'') \<and> i = argc - 1 then
               Inr (w\<lparr>cerr := cerr w @ expected_value cmd\<rparr>, argv)
             else
               (let flag = (cmd \<noteq> [] \<and> hd cmd = CHR ''-'');
                    argv' = (if flag then argv[i := None] else argv);
                    cmd' = (if flag then cmd else toString_int (of_nat index));
                    index' = (if flag then index else index + 1)
                in
                  (case map_of (commandLineFlags (app w)) cmd' of
                     Some (section, key) \<Rightarrow>
                       (case getParam (app w) section key of
                          None \<Rightarrow> Inl NullParam
                        | Some p \<Rightarrow>
                            (case
                               (if getType p = ''boolean'' then
                                  (case stringTo_bool (getString io p) of
                                     Inl e \<Rightarrow> Inl e
                                   | Inr b \<Rightarrow> setString io p (toString_bool (\<not> b)))
                                else
                                  (case argv_string argv' i of
                                     Inl e \<Rightarrow> Inl e
                                   | Inr s \<Rightarrow> setString io p s))
                             of
                               Inl e \<Rightarrow> Inl e
                             | Inr p' \<Rightarrow>
                                 scan io argc (w\<lparr>app := param_assign (app w) section key p'\<rparr>)
                                   argv' index' (i + 1)))
                   | None \<Rightarrow>
                       scan io argc
                         (if cmd' \<noteq> [] \<and> hd cmd' = CHR ''-'' then
                            w\<lparr>cerr := cerr w @ ''Ignored command line argument '' @ cmd' @
                                              ''\<newline>''\<rparr>
                          else w)
                         argv' index' (i + 1)))))"
  by pat_completeness auto
termination
  by (relation "measure (\<lambda>(io, argc, w, argv, index, i). argc - i)") auto

declare scan.simps [simp del]

text \<open>
  The second loop: \<open>i--\<close> followed by the loop's \<open>i++\<close> leaves \<open>i\<close> as it is. It returns
  the array and \<open>handled\<close>.
\<close>

function compact ::
  "nat \<Rightarrow> string option list \<Rightarrow> nat \<Rightarrow> nat \<Rightarrow> error + (string option list \<times> nat)"
where
  "compact argc argv handled i =
     (if \<not> i < argc then Inr (argv, handled)
      else if length argv \<le> i then Inl OutOfBounds
      else if argv ! i = None then
        (if length argv \<le> i + (handled + 1) then Inl OutOfBounds
         else compact argc (argv[i := argv ! (i + (handled + 1))]) (handled + 1) i)
      else compact argc argv handled (i + 1))"
  by pat_completeness auto
termination
  by (relation "measures [\<lambda>(argc, argv, handled, i). argc - i,
                          \<lambda>(argc, argv, handled, i). length argv - (i + handled)]") auto

declare compact.simps [simp del]

text \<open>
  \<^verbatim>\<open>parseCommandLine(int *argc, char ** argv)\<close>: the result is the world, the array and
  the \<^verbatim>\<open>int\<close> that \<open>argc\<close> points to. The last statement, \<^verbatim>\<open>argc-=handled;\<close>, subtracts
  from the pointer, a local variable, and the \<^verbatim>\<open>int\<close> keeps its value.
\<close>

definition parseCommandLine ::
  "('f, 'd) float_io \<Rightarrow> ('f, 'd) world \<Rightarrow> nat \<Rightarrow> string option list \<Rightarrow>
   error + (('f, 'd) world \<times> string option list \<times> nat)"
where
  "parseCommandLine io w argc argv =
     (case scan io argc w argv 0 0 of
        Inl e \<Rightarrow> Inl e
      | Inr (w', argv') \<Rightarrow>
          (case compact argc argv' 0 0 of
             Inl e \<Rightarrow> Inl e
           | Inr (argv'', handled) \<Rightarrow> Inr (w', argv'', argc)))"

subsection \<open>The ini text, entry by entry\<close>

text \<open>
  The loop of \<^verbatim>\<open>parse\<close> once more, without the application: the section, key and value
  of every line that reaches \<^verbatim>\<open>param[list][key]->setString(value)\<close>, in the order of
  the text.
\<close>

function ini_entries_loop :: "istream \<Rightarrow> string \<Rightarrow> (string \<times> string \<times> string) list" where
  "ini_entries_loop strstr list =
     (if eof strstr then []
      else
        (case getline strstr [] (CHR ''\<newline>'') of
           (strstr', line) \<Rightarrow>
             if length line < 2 \<or> hd line = CHR ''#'' then ini_entries_loop strstr' list
             else if hd line = CHR ''['' then
               ini_entries_loop strstr' (take (length line - 2) (drop 1 line))
             else
               (case getline (istringstream line) [] (CHR ''='') of
                  (linestr, key) \<Rightarrow>
                    (case getline linestr [] (CHR 0x00) of
                       (linestr', value) \<Rightarrow>
                         (list, trim key [CHR '' '', CHR 0x09], trim value [CHR '' '', CHR 0x09]) #
                         ini_entries_loop strstr' list))))"
  by pat_completeness auto
termination
proof (relation "measure (\<lambda>(strstr, list).
                    (if rdstate strstr = Good then Suc (length (buf strstr)) else 0))", goal_cases)
  case 1
  show ?case by simp
next
  case (2 strstr list strstr' line)
  then show ?case
    using length_dropWhile_le [of "\<lambda>c. c \<noteq> CHR ''\<newline>''" "buf strstr"]
    by (auto simp: getline_def eof_def split: if_splits list.splits)
next
  case (3 strstr list strstr' line)
  then show ?case
    using length_dropWhile_le [of "\<lambda>c. c \<noteq> CHR ''\<newline>''" "buf strstr"]
    by (auto simp: getline_def eof_def split: if_splits list.splits)
next
  case (4 strstr list strstr' line)
  then show ?case
    using length_dropWhile_le [of "\<lambda>c. c \<noteq> CHR ''\<newline>''" "buf strstr"]
    by (auto simp: getline_def eof_def split: if_splits list.splits)
qed

declare ini_entries_loop.simps [simp del]

definition ini_entries :: "string \<Rightarrow> (string \<times> string \<times> string) list" where
  "ini_entries ini = ini_entries_loop (istringstream ini) ''Global''"

text \<open>
  What the specification says is done with these lines: each is applied via \<open>setString\<close>
  to the parameter already registered at its section and key, and the lookup of a key
  that was never declared is fatal.
\<close>

fun apply_entries ::
  "('f, 'd) float_io \<Rightarrow> ('f, 'd) ctkCmdLineApplication \<Rightarrow> (string \<times> string \<times> string) list \<Rightarrow>
   error + ('f, 'd) ctkCmdLineApplication"
where
  "apply_entries io a [] = Inr a"
| "apply_entries io a ((section, key, value) # es) =
     (case getParam a section key of
        None \<Rightarrow> Inl NullParam
      | Some p \<Rightarrow>
          (case setString io p value of
             Inl e \<Rightarrow> Inl e
           | Inr p' \<Rightarrow> apply_entries io (param_assign a section key p') es))"

subsection \<open>Example objects\<close>

text \<open>
  Stream conversions for examples that hold no \<^verbatim>\<open>float\<close> and no \<^verbatim>\<open>double\<close>, and an
  application with a \<^verbatim>\<open>ctkParamData<bool>\<close> that is true, a \<^verbatim>\<open>ctkParamDataFile\<close> bound
  to its long flag and to the index 0, and a \<^verbatim>\<open>ctkParamData<std::vector<int> >\<close>.
\<close>

definition no_float_io :: "(unit, unit) float_io" where
  "no_float_io =
     \<lparr>toString_float = (\<lambda>v. []), stringTo_float = (\<lambda>inp. Inl ExtractionFailed),
      toString_double = (\<lambda>v. []), stringTo_double = (\<lambda>inp. Inl ExtractionFailed)\<rparr>"

definition demo_app :: "(unit, unit) ctkCmdLineApplication" where
  "demo_app =
     setFlag ''0'' ''Special'' ''File''
       (setFlag ''--special-file'' ''Special'' ''File''
          (param_assign
             (setFlag ''--bool-param'' ''Bool'' ''Param''
                (param_assign
                   (setFlag ''--vector-types-int-vec'' ''Vector Types'' ''Int Vec''
                      (param_assign
                         (ctkCmdLineApplication ''The Big Test'' ''Does absolutely nothing.'')
                         ''Vector Types'' ''Int Vec'' (ctkParamData None (VIntVec [1, 2, 3, 4]))))
                   ''Bool'' ''Param'' (ctkParamData None (VBool True))))
             ''Special'' ''File'' (ctkParamData (Some File) (VString []))))"

text \<open>The process before \<^verbatim>\<open>parseCommandLine\<close>: no file, nothing written.\<close>

definition world_of :: "('f, 'd) ctkCmdLineApplication \<Rightarrow> ('f, 'd) world" where
  "world_of a = \<lparr>app = a, files = [], cout = [], cerr = []\<rparr>"

section \<open>Properties of the string conversions\<close>

subsection \<open>Integers\<close>

lemma digit_char_props:
  assumes "d < 10"
  shows "isdigit (digit_char d)" "\<not> isspace (digit_char d)" "digit_char d \<noteq> CHR ''-''"
    "digit_char d \<noteq> CHR ''+''" "digit_char d \<noteq> CHR '',''"
    "of_char (digit_char d) - 48 = int d"
proof -
  from assms have "d \<in> {0, 1, 2, 3, 4, 5, 6, 7, 8, 9}" by auto
  then show "isdigit (digit_char d)" "\<not> isspace (digit_char d)" "digit_char d \<noteq> CHR ''-''"
    "digit_char d \<noteq> CHR ''+''" "digit_char d \<noteq> CHR '',''"
    "of_char (digit_char d) - 48 = int d"
    by (auto simp: digit_char_def isdigit_def isspace_def)
qed

lemma show_nat_digits: "c \<in> set (show_nat n) \<Longrightarrow> \<exists>d<10. c = digit_char d"
proof (induction n rule: show_nat.induct)
  case (1 n)
  show ?case
  proof (cases "n < 10")
    case True
    with 1(2) show ?thesis
      by (auto simp: show_nat.simps [of n] intro: exI [of _ "nat n"])
  next
    case False
    with 1 show ?thesis
      by (auto simp: show_nat.simps [of n] intro: exI [of _ "nat (n mod 10)"])
  qed
qed

lemma show_nat_not_Nil: "show_nat n \<noteq> []"
  by (subst show_nat.simps) simp

lemma digits_value_snoc: "digits_value (ds @ [c]) = 10 * digits_value ds + (of_char c - 48)"
  by (simp add: digits_value_def)

lemma digits_value_show_nat: "0 \<le> n \<Longrightarrow> digits_value (show_nat n) = n"
proof (induction n rule: show_nat.induct)
  case (1 n)
  show ?case
  proof (cases "n < 10")
    case True
    with 1(2) have "nat n < 10" by simp
    with 1(2) True show ?thesis
      by (simp add: show_nat.simps [of n] digits_value_def digit_char_props)
  next
    case False
    with 1(2) have d: "0 \<le> n div 10" "nat (n mod 10) < 10" by simp_all
    from 1(1) [OF False d(1)] d(2) False show ?thesis
      by (simp add: show_nat.simps [of n] digits_value_snoc digit_char_props)
  qed
qed

lemma show_nat_all_digits: "takeWhile isdigit (show_nat n) = show_nat n"
  by (auto dest!: show_nat_digits simp: digit_char_props)

lemma hd_show_nat: "\<exists>d<10. hd (show_nat n) = digit_char d"
  using show_nat_digits [of "hd (show_nat n)" n] show_nat_not_Nil [of n] by simp

lemma stringTo_int_show_nat:
  assumes "0 \<le> n" "n < 2 ^ 31"
  shows "stringTo_int (show_nat n) = Inr (word_of_int n)"
proof -
  obtain d where d: "d < 10" "hd (show_nat n) = digit_char d"
    using hd_show_nat by blast
  obtain c cs where s: "show_nat n = c # cs"
    using show_nat_not_Nil [of n] by (cases "show_nat n") auto
  with d have c: "\<not> isspace c" "c \<noteq> CHR ''-''" "c \<noteq> CHR ''+''"
    using digit_char_props [OF d(1)] by auto
  have tw: "takeWhile isdigit (c # cs) = c # cs"
    using show_nat_all_digits [of n] s by simp
  have dv: "digits_value (c # cs) = n"
    using digits_value_show_nat [OF assms(1)] s by simp
  show ?thesis
    unfolding stringTo_int_def s using c assms
    by (simp add: Let_def tw dv del: takeWhile.simps)
qed

lemma stringTo_int_minus_show_nat:
  assumes "0 \<le> n" "n \<le> 2 ^ 31"
  shows "stringTo_int (CHR ''-'' # show_nat n) = Inr (word_of_int (- n))"
proof -
  have tw: "takeWhile isdigit (show_nat n) = show_nat n"
    by (rule show_nat_all_digits)
  have sp: "\<not> isspace (CHR ''-'')" by (simp add: isspace_def)
  show ?thesis
    unfolding stringTo_int_def using sp assms show_nat_not_Nil [of n]
    by (simp add: Let_def digits_value_show_nat tw)
qed

lemma stringTo_int_toString_int: "stringTo_int (toString_int v) = Inr v"
proof (cases "sint v < 0")
  case True
  have "- (2 ^ 31) \<le> sint v" using sint_ge [of v] by simp
  with True have "0 \<le> - sint v" "- sint v \<le> 2 ^ 31" by simp_all
  from stringTo_int_minus_show_nat [OF this] True show ?thesis
    by (simp add: toString_int_def)
next
  case False
  have "sint v < 2 ^ 31" using sint_lt [of v] by simp
  with False have "0 \<le> sint v" "sint v < 2 ^ 31" by simp_all
  from stringTo_int_show_nat [OF this] False show ?thesis
    by (simp add: toString_int_def)
qed

lemma toString_int_not_Nil: "toString_int v \<noteq> []"
  by (simp add: toString_int_def show_nat_not_Nil)

lemma show_nat_no_comma: "CHR '','' \<notin> set (show_nat n)"
proof
  assume "CHR '','' \<in> set (show_nat n)"
  then obtain d where "d < 10" "CHR '','' = digit_char d"
    using show_nat_digits by blast
  then show False using digit_char_props(5) [of d] by simp
qed

lemma toString_int_no_comma: "CHR '','' \<notin> set (toString_int v)"
  by (simp add: toString_int_def show_nat_no_comma)

subsection \<open>Vectors\<close>

lemma stringToVector_loop_empty: "stringToVector_loop conv delim (istringstream []) [] [] = Inr ([], [])"
  by (simp add: stringToVector_loop.simps istringstream_def getline_def fail_def)

lemma foldl_join: "foldl (\<lambda>ret y. ret @ c # ts y) a xs = a @ concat (map (\<lambda>y. c # ts y) xs)"
  by (induction xs arbitrary: a) simp_all

lemma getline_at_end:
  assumes "c \<notin> set t" "t \<noteq> []"
  shows "getline \<lparr>buf = t, rdstate = Good\<rparr> item c = (\<lparr>buf = [], rdstate = Eof\<rparr>, t)"
proof -
  from assms(1) have "dropWhile (\<lambda>a. a \<noteq> c) t = []" by auto
  then show ?thesis using assms(2) by (simp add: getline_def del: dropWhile_eq_Nil_conv)
qed

lemma getline_at_delim:
  assumes "c \<notin> set t"
  shows "getline \<lparr>buf = t @ c # r, rdstate = Good\<rparr> item c = (\<lparr>buf = r, rdstate = Good\<rparr>, t)"
proof -
  from assms have "dropWhile (\<lambda>a. a \<noteq> c) (t @ c # r) = c # r"
    by (induction t) auto
  moreover from assms have "takeWhile (\<lambda>a. a \<noteq> c) (t @ c # r) = t"
    by (induction t) auto
  ultimately show ?thesis by (simp add: getline_def)
qed

lemma getline_after_eof:
  "getline \<lparr>buf = [], rdstate = Eof\<rparr> item c = (\<lparr>buf = [], rdstate = EofFail\<rparr>, item)"
  by (simp add: getline_def)

lemma stringToVector_loop_joined:
  assumes "c \<notin> set t" "conv t = Inr v"
    and "\<forall>y\<in>set ys. c \<notin> set (ts y) \<and> conv (ts y) = Inr y"
    and "last (t # map ts ys) \<noteq> []"
  shows "stringToVector_loop conv c \<lparr>buf = t @ concat (map (\<lambda>y. c # ts y) ys), rdstate = Good\<rparr> item ret
         = Inr (last (t # map ts ys), ret @ v # ys)"
  using assms
proof (induction ys arbitrary: t v item ret)
  case Nil
  then have t: "t \<noteq> []" by simp
  show ?case
    apply (subst stringToVector_loop.simps)
    apply (simp add: getline_at_end [OF Nil(1) t] fail_def Nil(2))
    apply (subst stringToVector_loop.simps)
    apply (simp add: getline_after_eof fail_def)
    done
next
  case (Cons y ys)
  have step: "stringToVector_loop conv c \<lparr>buf = ts y @ concat (map (\<lambda>y. c # ts y) ys), rdstate = Good\<rparr> t (ret @ [v])
         = Inr (last (ts y # map ts ys), (ret @ [v]) @ y # ys)"
    using Cons.prems by (intro Cons.IH) auto
  show ?case
    apply (subst stringToVector_loop.simps)
    using getline_at_delim [OF Cons.prems(1), of "ts y @ concat (map (\<lambda>y. c # ts y) ys)" item]
    apply (simp add: fail_def Cons.prems(2) step)
    done
qed

lemma stringToVector_vectortoString:
  assumes "xs \<noteq> []" "ts (last xs) \<noteq> []"
    and "\<forall>x\<in>set xs. c \<notin> set (ts x) \<and> conv (ts x) = Inr x"
  shows "stringToVector conv (vectortoString ts xs [c]) c = Inr xs"
proof -
  from assms(1) obtain x xs' where xs: "xs = x # xs'" by (cases xs) auto
  have l: "last (ts x # map ts xs') = ts (last xs)"
    unfolding xs by (simp add: last_map)
  have "stringToVector_loop conv c \<lparr>buf = ts x @ concat (map (\<lambda>y. c # ts y) xs'), rdstate = Good\<rparr> [] []
         = Inr (last (ts x # map ts xs'), [] @ x # xs')"
    using assms unfolding xs by (intro stringToVector_loop_joined) (auto simp: last_map)
  then show ?thesis
    using assms(2) l unfolding xs
    by (simp add: stringToVector_def foldl_join istringstream_def)
qed

lemma getline_at_empty:
  "getline \<lparr>buf = [], rdstate = Good\<rparr> item c = (\<lparr>buf = [], rdstate = EofFail\<rparr>, [])"
  by (simp add: getline_def)

lemma stringToVector_loop_joined_delim:
  assumes "c \<notin> set t" "conv t = Inr v"
    and "\<forall>y\<in>set ys. c \<notin> set (ts y) \<and> conv (ts y) = Inr y"
  shows "stringToVector_loop conv c
           \<lparr>buf = t @ concat (map (\<lambda>y. c # ts y) ys) @ [c], rdstate = Good\<rparr> item ret
         = Inr ([], ret @ v # ys)"
  using assms
proof (induction ys arbitrary: t v item ret)
  case Nil
  show ?case
    apply (subst stringToVector_loop.simps)
    using getline_at_delim [OF Nil(1), of "[]" item]
    apply (simp add: fail_def Nil(2))
    apply (subst stringToVector_loop.simps)
    apply (simp add: getline_at_empty fail_def)
    done
next
  case (Cons y ys)
  have step: "stringToVector_loop conv c
                \<lparr>buf = ts y @ concat (map (\<lambda>y. c # ts y) ys) @ [c], rdstate = Good\<rparr> t (ret @ [v])
              = Inr ([], (ret @ [v]) @ y # ys)"
    using Cons.prems by (intro Cons.IH) auto
  show ?case
    apply (subst stringToVector_loop.simps)
    using getline_at_delim [OF Cons.prems(1), of "ts y @ concat (map (\<lambda>y. c # ts y) ys) @ [c]" item]
    apply (simp add: fail_def Cons.prems(2) step)
    done
qed

lemma stringToVector_trailing_delim:
  assumes "xs \<noteq> []" "\<forall>x\<in>set xs. c \<notin> set (ts x) \<and> conv (ts x) = Inr x"
  shows "stringToVector conv (vectortoString ts xs [c] @ [c]) c = Inr (butlast xs)"
proof -
  from assms(1) obtain x xs' where xs: "xs = x # xs'" by (cases xs) auto
  have "stringToVector_loop conv c
          \<lparr>buf = ts x @ concat (map (\<lambda>y. c # ts y) xs') @ [c], rdstate = Good\<rparr> [] []
        = Inr ([], [] @ x # xs')"
    using assms unfolding xs by (intro stringToVector_loop_joined_delim) auto
  then show ?thesis
    unfolding xs by (simp add: stringToVector_def foldl_join istringstream_def)
qed

text \<open>
  Claim C5. The conversion splits at the commas and converts each token. A string that
  ends in a comma should lose the empty token after it; the code loses the last token
  before it instead: after the last comma \<^verbatim>\<open>getline\<close> fails with an empty \<open>item\<close>, no
  empty token was pushed, and \<^verbatim>\<open>pop_back\<close> removes the last element parsed. So
  \<open>''1,2,3,''\<close> yields \<open>[1, 2]\<close>, where the claim expects \<open>[1, 2, 3]\<close>. Without a comma
  at the end nothing is dropped, and \<open>''1,2,3,4''\<close> yields \<open>[1, 2, 3, 4]\<close>.
\<close>

theorem stringToVector_trailing_comma_drops_element:
  "(xs \<noteq> [] \<and> (\<forall>x\<in>set xs. CHR '','' \<notin> set (ts x) \<and> conv (ts x) = Inr x) \<longrightarrow>
      stringToVector conv (vectortoString ts xs '','' @ '','') (CHR '','') = Inr (butlast xs)) \<and>
   (xs \<noteq> [] \<and> ts (last xs) \<noteq> [] \<and>
      (\<forall>x\<in>set xs. CHR '','' \<notin> set (ts x) \<and> conv (ts x) = Inr x) \<longrightarrow>
      stringToVector conv (vectortoString ts xs '','') (CHR '','') = Inr xs)"
  using stringToVector_trailing_delim [of xs "CHR '',''" ts conv]
    stringToVector_vectortoString [of xs ts "CHR '',''" conv]
  by blast

theorem stringToVector_trailing_comma_drops_element_witness:
  "stringToVector stringTo_int ''1,2,3,'' (CHR '','') = Inr [1, 2] \<and>
   stringToVector stringTo_int ''1,2,3,4'' (CHR '','') = Inr [1, 2, 3, 4]"
proof -
  have s3: "vectortoString toString_int [1, 2, 3] '','' @ '','' = ''1,2,3,''"
    by code_simp
  have s4: "vectortoString toString_int [1, 2, 3, 4] '','' = ''1,2,3,4''"
    by code_simp
  have h: "\<forall>x\<in>set xs. CHR '','' \<notin> set (toString_int x) \<and>
             stringTo_int (toString_int x) = Inr x" for xs
    by (simp add: toString_int_no_comma stringTo_int_toString_int)
  have l: "toString_int (last [1, 2, 3, 4]) \<noteq> []"
    by (rule toString_int_not_Nil)
  have h3: "[1, 2, 3] \<noteq> [] \<and>
             (\<forall>x\<in>set [1, 2, 3]. CHR '','' \<notin> set (toString_int x) \<and>
                stringTo_int (toString_int x) = Inr x)"
    using h by blast
  have h4: "[1, 2, 3, 4] \<noteq> [] \<and> toString_int (last [1, 2, 3, 4]) \<noteq> [] \<and>
             (\<forall>x\<in>set [1, 2, 3, 4]. CHR '','' \<notin> set (toString_int x) \<and>
                stringTo_int (toString_int x) = Inr x)"
    using h l by blast
  from stringToVector_trailing_comma_drops_element [of "[1, 2, 3]" toString_int stringTo_int] h3
  have "stringToVector stringTo_int (vectortoString toString_int [1, 2, 3] '','' @ '','') (CHR '','')
          = Inr (butlast [1, 2, 3])"
    by blast
  then have c1: "stringToVector stringTo_int ''1,2,3,'' (CHR '','') = Inr [1, 2]"
    unfolding s3 by simp
  from stringToVector_trailing_comma_drops_element [of "[1, 2, 3, 4]" toString_int stringTo_int] h4
  have "stringToVector stringTo_int (vectortoString toString_int [1, 2, 3, 4] '','') (CHR '','')
          = Inr [1, 2, 3, 4]"
    by blast
  then have c2: "stringToVector stringTo_int ''1,2,3,4'' (CHR '','') = Inr [1, 2, 3, 4]"
    unfolding s4 by simp
  from c1 c2 show ?thesis by blast
qed

text \<open>
  Claim C6. The round-trip law \<open>stringTo (toString x) = x\<close>, as amended: it holds for
  every \<^verbatim>\<open>bool\<close>, every \<^verbatim>\<open>int\<close> and every \<^verbatim>\<open>std::string\<close>, for every non-empty vector of
  \<^verbatim>\<open>int\<close>, and for a vector of any element type that is not empty, whose last element's
  string is not empty, and whose elements' strings hold no comma and convert back to
  the elements.
\<close>

theorem string_round_trip_amended:
  "stringTo_bool (toString_bool b) = Inr b \<and>
   stringTo_int (toString_int n) = Inr n \<and>
   stringTo_string (toString_string s) = Inr s \<and>
   (xs \<noteq> [] \<longrightarrow> stringToVector stringTo_int (vectortoString toString_int xs '','') (CHR '','') = Inr xs) \<and>
   (ys \<noteq> [] \<and> ts (last ys) \<noteq> [] \<and> (\<forall>y\<in>set ys. CHR '','' \<notin> set (ts y) \<and> conv (ts y) = Inr y) \<longrightarrow>
      stringToVector conv (vectortoString ts ys '','') (CHR '','') = Inr ys)"
proof -
  have b: "stringTo_bool (toString_bool b) = Inr b"
    by (simp add: stringTo_bool_def toString_bool_def)
  have s: "stringTo_string (toString_string s) = Inr s"
    by (simp add: stringTo_string_def toString_string_def)
  have iv: "stringToVector stringTo_int (vectortoString toString_int xs '','') (CHR '','') = Inr xs"
    if "xs \<noteq> []"
    using that
    by (intro stringToVector_vectortoString)
      (simp_all add: toString_int_not_Nil toString_int_no_comma stringTo_int_toString_int)
  have v: "stringToVector conv (vectortoString ts ys '','') (CHR '','') = Inr ys"
    if "ys \<noteq> [] \<and> ts (last ys) \<noteq> [] \<and> (\<forall>y\<in>set ys. CHR '','' \<notin> set (ts y) \<and> conv (ts y) = Inr y)"
    using that by (intro stringToVector_vectortoString) simp_all
  from b s iv v show ?thesis
    by (simp add: stringTo_int_toString_int)
qed

theorem string_round_trip_amended_witness:
  "stringTo_bool (toString_bool True) = Inr True \<and>
   stringTo_int (toString_int (- 120)) = Inr (- 120) \<and>
   stringTo_string (toString_string ''hi'') = Inr ''hi'' \<and>
   stringToVector stringTo_int (vectortoString toString_int [1, 2, 3] '','') (CHR '','')
     = Inr [1, 2, 3] \<and>
   stringToVector stringTo_string (vectortoString toString_string [''a'', ''b''] '','') (CHR '','')
     = Inr [''a'', ''b'']"
  using string_round_trip_amended
    [of True "- 120" "''hi''" "[1, 2, 3]" "[''a'', ''b'']" toString_string stringTo_string]
  by (simp add: toString_string_def stringTo_string_def)

text \<open>
  The law as the claim states it fails for vectors: a string with a comma in it comes
  back as two elements.
\<close>

theorem roundtrip_vec_counterexample:
  "stringToVector stringTo_string (vectortoString toString_string [''a,b''] '','') (CHR '','')
     \<noteq> Inr [''a,b'']"
  by code_simp

text \<open>
  Claim C10. Converting the empty string to a vector reaches the guard after the loop
  with an empty \<open>item\<close> and an empty vector, and \<^verbatim>\<open>pop_back\<close> runs on the empty vector;
  so does \<^verbatim>\<open>setString("")\<close> on a parameter of each of the four vector types, and so does
  \<open>parse\<close> on an ini line that gives such a parameter an empty value.
\<close>

theorem stringToVector_empty_pops_empty_vector:
  "stringToVector_loop conv delim (istringstream []) [] [] = Inr ([], []) \<and>
   stringToVector conv [] delim = Inl PopBackEmpty \<and>
   setString io (p\<lparr>val := VIntVec xs\<rparr>) [] = Inl PopBackEmpty \<and>
   setString io (p\<lparr>val := VFloatVec fs\<rparr>) [] = Inl PopBackEmpty \<and>
   setString io (p\<lparr>val := VDoubleVec ds\<rparr>) [] = Inl PopBackEmpty \<and>
   setString io (p\<lparr>val := VStringVec ss\<rparr>) [] = Inl PopBackEmpty \<and>
   parse no_float_io demo_app ''[Vector Types]\<newline>Int Vec ='' = Inl PopBackEmpty"
proof -
  have "parse no_float_io demo_app ''[Vector Types]\<newline>Int Vec ='' = Inl PopBackEmpty"
    by code_simp
  then show ?thesis
    by (simp add: stringToVector_loop_empty stringToVector_def setString_def)
qed

section \<open>Properties of the registry\<close>

lemma map_of_map_assign: "map_of (map_assign k v m) = (map_of m)(k \<mapsto> v)"
  by (induction m) (auto simp: fun_upd_twist)

lemma getParam_param_assign:
  "getParam (param_assign a section key p) s k =
     (if s = section \<and> k = key then Some p else getParam a s k)"
  by (auto simp: getParam_def param_assign_def map_of_map_assign map_at_def split: option.splits)




section \<open>Properties of the ini parser\<close>

lemma parse_loop_apply_entries:
  "parse_loop io a strstr list = apply_entries io a (ini_entries_loop strstr list)"
proof (induction io a strstr list rule: parse_loop.induct)
  case (1 io a strstr list)
  show ?case
    apply (subst parse_loop.simps)
    apply (subst ini_entries_loop.simps)
    using 1
    apply (auto split: prod.splits option.splits sum.splits)
    done
qed

lemma apply_entries_append:
  "apply_entries io a (es @ es') =
     (case apply_entries io a es of Inl e \<Rightarrow> Inl e | Inr a' \<Rightarrow> apply_entries io a' es')"
  by (induction io a es rule: apply_entries.induct) (auto split: option.splits sum.splits)

lemma apply_entries_declared:
  "apply_entries io a es = Inr a' \<Longrightarrow> getParam a' s k = None \<longleftrightarrow> getParam a s k = None"
  by (induction io a es rule: apply_entries.induct)
    (auto split: option.splits sum.splits simp: getParam_param_assign)

lemma apply_entries_fails_in_setString:
  "\<forall>(s, k, v)\<in>set es. getParam a s k \<noteq> None \<Longrightarrow> apply_entries io a es = Inl e \<Longrightarrow>
   \<exists>s k v p. (s, k, v) \<in> set es \<and> setString io p v = Inl e"
proof (induction io a es rule: apply_entries.induct)
  case (1 io a)
  then show ?case by simp
next
  case (2 io a sec ky vl es)
  from 2(2) obtain p where p: "getParam a sec ky = Some p" by auto
  show ?case
  proof (cases "setString io p vl")
    case (Inl e')
    with 2(3) p have "e' = e" by simp
    with Inl show ?thesis by auto
  next
    case (Inr p')
    have "\<forall>(s, k, v)\<in>set es. getParam (param_assign a sec ky p') s k \<noteq> None"
      using 2(2) by (auto simp: getParam_param_assign)
    moreover have "apply_entries io (param_assign a sec ky p') es = Inl e"
      using 2(3) p Inr by simp
    ultimately obtain s k v q where "(s, k, v) \<in> set es" "setString io q v = Inl e"
      using 2(1) [OF p Inr] by blast
    then show ?thesis by auto
  qed
qed

text \<open>
  Claim C8. \<open>parse\<close> applies the lines of the text in order, each to the parameter
  registered at its section and key. A line whose key was never declared in its
  section ends \<open>parse\<close> in the call through the null pointer, once the lines before it
  have been applied: it is not skipped. When every section and key the text mentions
  is declared, no lookup fails: an error of \<open>parse\<close> is then the error of a
  \<open>setString\<close> on a value of the text.
\<close>

theorem parse_applies_declared_fatal_on_undeclared:
  "parse io a ini = apply_entries io a (ini_entries ini) \<and>
   (ini_entries ini = es @ (s, k, v) # rest \<and> apply_entries io a es = Inr a1 \<and>
      getParam a s k = None \<longrightarrow> parse io a ini = Inl NullParam) \<and>
   ((\<forall>(s, k, v)\<in>set (ini_entries ini). getParam a s k \<noteq> None) \<and> parse io a ini = Inl e \<longrightarrow>
      (\<exists>s k v p. (s, k, v) \<in> set (ini_entries ini) \<and> setString io p v = Inl e))"
proof -
  have eq: "parse io a ini = apply_entries io a (ini_entries ini)"
    by (simp add: parse_def ini_entries_def parse_loop_apply_entries)
  have undeclared: "parse io a ini = Inl NullParam"
    if "ini_entries ini = es @ (s, k, v) # rest" "apply_entries io a es = Inr a1"
      "getParam a s k = None"
  proof -
    from that(2,3) have "getParam a1 s k = None" by (simp add: apply_entries_declared)
    with that(1,2) show ?thesis by (simp add: eq apply_entries_append)
  qed
  have declared: "\<exists>s k v p. (s, k, v) \<in> set (ini_entries ini) \<and> setString io p v = Inl e"
    if "\<forall>(s, k, v)\<in>set (ini_entries ini). getParam a s k \<noteq> None" "parse io a ini = Inl e"
    using that apply_entries_fails_in_setString [of "ini_entries ini" a io e] by (simp add: eq)
  from eq undeclared declared show ?thesis by blast
qed

theorem parse_applies_declared_fatal_on_undeclared_witness:
  "parse no_float_io demo_app ''[Special]\<newline>File = a.txt''
     = Inr (param_assign demo_app ''Special'' ''File'' (ctkParamData (Some File) (VString ''a.txt''))) \<and>
   parse no_float_io demo_app ''[Special]\<newline>Fiel = a.txt'' = Inl NullParam \<and>
   parse no_float_io demo_app ''[Vector Types]\<newline>Int Vec ='' = Inl PopBackEmpty \<and>
   (\<exists>s k v p. (s, k, v) \<in> set (ini_entries ''[Vector Types]\<newline>Int Vec ='') \<and>
      setString no_float_io p v = Inl PopBackEmpty)"
proof -
  have e1: "ini_entries ''[Special]\<newline>File = a.txt'' = [(''Special'', ''File'', ''a.txt'')]"
    by code_simp
  have a1: "apply_entries no_float_io demo_app [(''Special'', ''File'', ''a.txt'')]
              = Inr (param_assign demo_app ''Special'' ''File''
                  (ctkParamData (Some File) (VString ''a.txt'')))"
    by code_simp
  have e2: "ini_entries ''[Special]\<newline>Fiel = a.txt'' = [] @ (''Special'', ''Fiel'', ''a.txt'') # []"
    by code_simp
  have a2: "apply_entries no_float_io demo_app [] = Inr demo_app"
    by simp
  have g2: "getParam demo_app ''Special'' ''Fiel'' = None"
    by code_simp
  have e3: "ini_entries ''[Vector Types]\<newline>Int Vec ='' = [(''Vector Types'', ''Int Vec'', [])]"
    by code_simp
  have g3: "getParam demo_app ''Vector Types'' ''Int Vec'' \<noteq> None"
    by code_simp
  have a3: "apply_entries no_float_io demo_app [(''Vector Types'', ''Int Vec'', [])]
              = Inl PopBackEmpty"
    by code_simp
  note t1 = parse_applies_declared_fatal_on_undeclared
    [of no_float_io demo_app "''[Special]\<newline>File = a.txt''"]
  note t2 = parse_applies_declared_fatal_on_undeclared
    [of no_float_io demo_app "''[Special]\<newline>Fiel = a.txt''" "[]"
      "''Special''" "''Fiel''" "''a.txt''" "[]" demo_app]
  note t3 = parse_applies_declared_fatal_on_undeclared
    [of no_float_io demo_app "''[Vector Types]\<newline>Int Vec =''" _ _ _ _ _ _ PopBackEmpty]
  from t1 have c1: "parse no_float_io demo_app ''[Special]\<newline>File = a.txt''
     = Inr (param_assign demo_app ''Special'' ''File'' (ctkParamData (Some File) (VString ''a.txt'')))"
    by (simp only: e1 a1)
  from t2 e2 a2 g2 have c2: "parse no_float_io demo_app ''[Special]\<newline>Fiel = a.txt'' = Inl NullParam"
    by blast
  from t3 have c3: "parse no_float_io demo_app ''[Vector Types]\<newline>Int Vec ='' = Inl PopBackEmpty"
    by (simp only: e3 a3)
  from t3 c3 g3 have c4: "\<exists>s k v p. (s, k, v) \<in> set (ini_entries ''[Vector Types]\<newline>Int Vec ='') \<and>
      setString no_float_io p v = Inl PopBackEmpty"
    by (simp add: e3)
  from c1 c2 c3 c4 show ?thesis by blast
qed

section \<open>Properties of the XML description\<close>

lemma xml_app_tags_other:
  "t \<notin> set app_tags_order \<Longrightarrow> xml_app_tags (map_assign t v m) = xml_app_tags m"
  by (auto simp: xml_app_tags_def map_of_map_assign intro!: arg_cong [where f = concat])

text \<open>
  Claim C9. The tags are written in the fixed order, and a tag absent from the map is
  left out; but a tag set through its setter does not always appear. \<open>setTitel\<close> stores
  under \<open>''titel''\<close> and \<open>setDocumentationUrl\<close> under \<open>''documentationUrl''\<close>, while the
  description reads \<open>''title''\<close> and \<open>''documentation-url''\<close>: neither setter changes the
  description, for any application and any string, and the URL set in the example is
  missing from its description.
\<close>

theorem getXMLDescription_ignores_titel_and_documentationUrl:
  "getXMLDescription io (setDocumentationUrl url a) = getXMLDescription io a \<and>
   getXMLDescription io (setTitel titel a) = getXMLDescription io a \<and>
   getXMLDescription io
     (setDocumentationUrl ''http://example.org'' (setCategory ''Toys''
        (ctkCmdLineApplication ''The Big Test'' ''Does absolutely nothing.''))) =
   Inr (''<?xml version='' @ [CHR 0x22] @ ''1.0'' @ [CHR 0x22] @ '' encoding='' @ [CHR 0x22] @
        ''utf-8'' @ [CHR 0x22] @ ''?>\<newline>'' @
        ''<executable>\<newline>'' @
        ''  <category>Toys</category>\<newline>'' @
        ''  <title>The Big Test</title>\<newline>'' @
        ''  <description>Does absolutely nothing.</description>\<newline>'' @
        ''</executable>\<newline>'')"
proof -
  have u: "xml_app_tags (app_tags (setDocumentationUrl url a)) = xml_app_tags (app_tags a)"
    "param (setDocumentationUrl url a) = param a"
    by (simp_all add: setDocumentationUrl_def set_tag_def xml_app_tags_other app_tags_order_def)
  have t: "xml_app_tags (app_tags (setTitel titel a)) = xml_app_tags (app_tags a)"
    "param (setTitel titel a) = param a"
    by (simp_all add: setTitel_def set_tag_def xml_app_tags_other app_tags_order_def)
  have "getXMLDescription io (setDocumentationUrl url a) = getXMLDescription io a"
    by (simp only: getXMLDescription_def u)
  moreover have "getXMLDescription io (setTitel titel a) = getXMLDescription io a"
    by (simp only: getXMLDescription_def t)
  moreover have "getXMLDescription io
     (setDocumentationUrl ''http://example.org'' (setCategory ''Toys''
        (ctkCmdLineApplication ''The Big Test'' ''Does absolutely nothing.''))) =
   Inr (''<?xml version='' @ [CHR 0x22] @ ''1.0'' @ [CHR 0x22] @ '' encoding='' @ [CHR 0x22] @
        ''utf-8'' @ [CHR 0x22] @ ''?>\<newline>'' @
        ''<executable>\<newline>'' @
        ''  <category>Toys</category>\<newline>'' @
        ''  <title>The Big Test</title>\<newline>'' @
        ''  <description>Does absolutely nothing.</description>\<newline>'' @
        ''</executable>\<newline>'')"
    by code_simp
  ultimately show ?thesis by blast
qed

section \<open>Properties of the command line parser\<close>

text \<open>
  One iteration of the first loop, for a token that is none of the built-in switches:
  a flag that is the last token, a flag bound to a boolean parameter, a flag bound to
  another parameter, a flag bound to nothing, and a positional token.
\<close>

lemma getType_boolean: "getType p = ''boolean'' \<longleftrightarrow> cls p = None \<and> (\<exists>b. val p = VBool b)"
proof (cases "cls p")
  case None
  then show ?thesis by (cases "val p") (simp_all add: getType_def)
next
  case (Some t)
  then show ?thesis by (cases t) (simp_all add: getType_def)
qed

lemma toggle_bool:
  "val p = VBool b \<Longrightarrow>
   (case stringTo_bool (getString io p) of
      Inl e \<Rightarrow> Inl e
    | Inr b \<Rightarrow> setString io p (toString_bool (\<not> b))) = Inr (p\<lparr>val := VBool (\<not> b)\<rparr>)"
  by (simp add: getString_def setString_def stringTo_bool_def toString_bool_def)

lemma argv_string_marked:
  "argv_string argv i = Inr cmd \<Longrightarrow> argv_string (argv[i := None]) i = Inl NullString"
  by (auto simp: argv_string_def split: if_splits option.splits)

lemma scan_flag_last:
  assumes "i < argc" "i = argc - 1" "argv_string argv i = Inr cmd"
    and "cmd \<notin> {''--xml'', ''--help'', ''-h'', ''--ctk-save-ini'', ''--ctk-load-ini''}"
    and "cmd \<noteq> []" "hd cmd = CHR ''-''"
  shows "scan io argc w argv index i = Inr (w\<lparr>cerr := cerr w @ expected_value cmd\<rparr>, argv)"
  using assms by (subst scan.simps) simp

lemma scan_flag_boolean:
  assumes "i < argc" "i \<noteq> argc - 1" "argv_string argv i = Inr cmd"
    and "cmd \<notin> {''--xml'', ''--help'', ''-h'', ''--ctk-save-ini'', ''--ctk-load-ini''}"
    and "cmd \<noteq> []" "hd cmd = CHR ''-''"
    and "map_of (commandLineFlags (app w)) cmd = Some (sect, key)"
    and "getParam (app w) sect key = Some p" "val p = VBool b" "cls p = None"
  shows "scan io argc w argv index i =
           scan io argc (w\<lparr>app := param_assign (app w) sect key (p\<lparr>val := VBool (\<not> b)\<rparr>)\<rparr>)
             (argv[i := None]) index (i + 1)"
proof -
  have t: "getType p = ''boolean''" using assms(9,10) by (simp add: getType_boolean)
  show ?thesis
    using assms(1-8) t by (subst scan.simps) (simp add: toggle_bool [OF assms(9)])
qed

lemma scan_flag_value:
  assumes "i < argc" "i \<noteq> argc - 1" "argv_string argv i = Inr cmd"
    and "cmd \<notin> {''--xml'', ''--help'', ''-h'', ''--ctk-save-ini'', ''--ctk-load-ini''}"
    and "cmd \<noteq> []" "hd cmd = CHR ''-''"
    and "map_of (commandLineFlags (app w)) cmd = Some (sect, key)"
    and "getParam (app w) sect key = Some p" "getType p \<noteq> ''boolean''"
  shows "scan io argc w argv index i = Inl NullString"
  using assms by (subst scan.simps) (simp add: argv_string_marked)

lemma scan_flag_unknown:
  assumes "i < argc" "i \<noteq> argc - 1" "argv_string argv i = Inr cmd"
    and "cmd \<notin> {''--xml'', ''--help'', ''-h'', ''--ctk-save-ini'', ''--ctk-load-ini''}"
    and "cmd \<noteq> []" "hd cmd = CHR ''-''"
    and "map_of (commandLineFlags (app w)) cmd = None"
  shows "scan io argc w argv index i =
           scan io argc (w\<lparr>cerr := cerr w @ ''Ignored command line argument '' @ cmd @ ''\<newline>''\<rparr>)
             (argv[i := None]) index (i + 1)"
  using assms by (subst scan.simps) simp

lemma scan_positional_value:
  assumes "i < argc" "argv_string argv i = Inr cmd" "cmd = [] \<or> hd cmd \<noteq> CHR ''-''"
    and "map_of (commandLineFlags (app w)) (toString_int (of_nat index)) = Some (sect, key)"
    and "getParam (app w) sect key = Some p" "getType p \<noteq> ''boolean''"
    and "setString io p cmd = Inr p'"
  shows "scan io argc w argv index i =
           scan io argc (w\<lparr>app := param_assign (app w) sect key p'\<rparr>) argv (index + 1) (i + 1)"
proof -
  have "cmd \<notin> {''--xml'', ''--help'', ''-h'', ''--ctk-save-ini'', ''--ctk-load-ini''}"
    using assms(3) by auto
  then show ?thesis
    using assms by (subst scan.simps) auto
qed

lemma hd_toString_int_of_nat:
  assumes "index < 2 ^ 31"
  shows "toString_int (of_nat index) \<noteq> [] \<and> hd (toString_int (of_nat index)) \<noteq> CHR ''-''"
proof -
  have "(word_of_nat index :: 32 word) = word_of_int (int index)"
    by simp
  moreover have "signed_take_bit 31 (int index) = int index"
    using assms by (intro signed_take_bit_int_eq_self) simp_all
  ultimately have "sint (word_of_nat index :: 32 word) = int index"
    by (simp only: sint_sbintrunc') simp
  then have "toString_int (of_nat index) = show_nat (int index)"
    by (simp add: toString_int_def)
  moreover obtain d where "d < 10" "hd (show_nat (int index)) = digit_char d"
    using hd_show_nat by blast
  ultimately show ?thesis
    using digit_char_props(3) [of d] by (simp add: show_nat_not_Nil)
qed

lemma scan_positional_unknown:
  assumes "i < argc" "argv_string argv i = Inr cmd" "cmd = [] \<or> hd cmd \<noteq> CHR ''-''"
    and "index < 2 ^ 31"
    and "map_of (commandLineFlags (app w)) (toString_int (of_nat index)) = None"
  shows "scan io argc w argv index i = scan io argc w argv (index + 1) (i + 1)"
proof -
  have "cmd \<notin> {''--xml'', ''--help'', ''-h'', ''--ctk-save-ini'', ''--ctk-load-ini''}"
    using assms(3) by auto
  then show ?thesis
    using assms hd_toString_int_of_nat [OF assms(4)] by (subst scan.simps) auto
qed

lemma compact_no_null:
  "\<forall>j<argc. j \<ge> i \<longrightarrow> j < length argv \<and> argv ! j \<noteq> None \<Longrightarrow> compact argc argv handled i = Inr (argv, handled)"
proof (induction "argc - i" arbitrary: i)
  case 0
  then show ?case by (subst compact.simps) simp
next
  case (Suc n)
  then have "i < argc" by simp
  moreover from Suc have "compact argc argv handled (i + 1) = Inr (argv, handled)"
    by (intro Suc(1)) auto
  ultimately show ?case
    using Suc(3) by (subst compact.simps) auto
qed

lemma parseCommandLine_single_flag:
  assumes "argv_string argv 0 = Inr cmd"
    and "cmd \<notin> {''--xml'', ''--help'', ''-h'', ''--ctk-save-ini'', ''--ctk-load-ini''}"
    and "cmd \<noteq> []" "hd cmd = CHR ''-''"
  shows "parseCommandLine io w 1 argv = Inr (w\<lparr>cerr := cerr w @ expected_value cmd\<rparr>, argv, 1)"
proof -
  have s: "scan io 1 w argv 0 0 = Inr (w\<lparr>cerr := cerr w @ expected_value cmd\<rparr>, argv)"
    using assms by (intro scan_flag_last) simp_all
  from assms(1) have "0 < length argv" "argv ! 0 \<noteq> None"
    by (auto simp: argv_string_def split: if_splits option.splits)
  then have c: "compact 1 argv 0 0 = Inr (argv, 0)"
    by (intro compact_no_null) auto
  from s c show ?thesis by (simp add: parseCommandLine_def)
qed

text \<open>
  Claim C1. A flag bound to a parameter that is not boolean, with a token after it,
  should give the parameter the text of that token. The code sets \<^verbatim>\<open>argv[i]\<close> to the
  null pointer and then passes \<^verbatim>\<open>argv[i]\<close>, not \<^verbatim>\<open>argv[i+1]\<close>, to \<open>setString\<close>: for every
  such token the scan ends in the construction of a \<^verbatim>\<open>std::string\<close> from a null pointer.
  A positional token bound through its index gives the parameter its own text.
\<close>

theorem scan_flag_value_reads_marked_token:
  "(i < argc \<and> i \<noteq> argc - 1 \<and> argv_string argv i = Inr cmd \<and>
      cmd \<notin> {''--xml'', ''--help'', ''-h'', ''--ctk-save-ini'', ''--ctk-load-ini''} \<and>
      cmd \<noteq> [] \<and> hd cmd = CHR ''-'' \<and>
      map_of (commandLineFlags (app w)) cmd = Some (sect, key) \<and>
      getParam (app w) sect key = Some p \<and> getType p \<noteq> ''boolean'' \<longrightarrow>
    scan io argc w argv index i = Inl NullString) \<and>
   (i < argc \<and> argv_string argv i = Inr cmd \<and> (cmd = [] \<or> hd cmd \<noteq> CHR ''-'') \<and>
      map_of (commandLineFlags (app w)) (toString_int (of_nat index)) = Some (sect, key) \<and>
      getParam (app w) sect key = Some p \<and> getType p \<noteq> ''boolean'' \<and>
      setString io p cmd = Inr p' \<longrightarrow>
    scan io argc w argv index i =
      scan io argc (w\<lparr>app := param_assign (app w) sect key p'\<rparr>) argv (index + 1) (i + 1))"
  by (intro conjI impI; elim conjE; (rule scan_flag_value scan_positional_value; assumption))

theorem scan_flag_value_reads_marked_token_witness:
  "scan no_float_io 2 (world_of demo_app) (main_argv [''--special-file'', ''in.txt'']) 0 0
     = Inl NullString \<and>
   parseCommandLine no_float_io (world_of demo_app) 2 (main_argv [''--special-file'', ''in.txt''])
     = Inl NullString \<and>
   scan no_float_io 1 (world_of demo_app) (main_argv [''in.txt'']) 0 0
     = Inr (world_of (param_assign demo_app ''Special'' ''File''
              (ctkParamData (Some File) (VString ''in.txt''))), main_argv [''in.txt''])"
proof -
  let ?p = "ctkParamData (Some File) (VString []) :: (unit, unit) ctkParamDataInterface"
  let ?p' = "ctkParamData (Some File) (VString ''in.txt'') :: (unit, unit) ctkParamDataInterface"
  have a: "argv_string (main_argv [''--special-file'', ''in.txt'']) 0 = Inr ''--special-file''"
    by code_simp
  have f: "map_of (commandLineFlags (app (world_of demo_app))) ''--special-file''
             = Some (''Special'', ''File'')"
    by code_simp
  have g: "getParam (app (world_of demo_app)) ''Special'' ''File'' = Some ?p"
    by code_simp
  have t: "getType ?p \<noteq> ''boolean''"
    by code_simp
  have flag: "scan no_float_io 2 (world_of demo_app) (main_argv [''--special-file'', ''in.txt'']) 0 0
     = Inl NullString"
    using scan_flag_value_reads_marked_token
      [where i = 0 and argc = 2 and argv = "main_argv [''--special-file'', ''in.txt'']"
        and cmd = "''--special-file''" and w = "world_of demo_app" and sect = "''Special''"
        and key = "''File''" and p = ?p and io = no_float_io and index = 0]
      a f g t
    by simp
  have a': "argv_string (main_argv [''in.txt'']) 0 = Inr ''in.txt''"
    by code_simp
  have f': "map_of (commandLineFlags (app (world_of demo_app))) (toString_int (of_nat 0))
             = Some (''Special'', ''File'')"
    by code_simp
  have s': "setString no_float_io ?p ''in.txt'' = Inr ?p'"
    by code_simp
  have rest: "scan no_float_io 1
      ((world_of demo_app)\<lparr>app := param_assign (app (world_of demo_app)) ''Special'' ''File'' ?p'\<rparr>)
      (main_argv [''in.txt'']) (0 + 1) (0 + 1)
     = Inr (world_of (param_assign demo_app ''Special'' ''File'' ?p'), main_argv [''in.txt''])"
    by (subst scan.simps) (simp add: world_of_def)
  have pos: "scan no_float_io 1 (world_of demo_app) (main_argv [''in.txt'']) 0 0
     = Inr (world_of (param_assign demo_app ''Special'' ''File'' ?p'), main_argv [''in.txt''])"
    using scan_flag_value_reads_marked_token
      [where i = 0 and argc = 1 and argv = "main_argv [''in.txt'']" and cmd = "''in.txt''"
        and w = "world_of demo_app" and sect = "''Special''" and key = "''File''" and p = ?p
        and io = no_float_io and index = 0 and p' = ?p']
      a' f' g t s' rest
    by simp
  from flag pos show ?thesis
    by (simp add: parseCommandLine_def)
qed

text \<open>
  Claim C2. After the scan the handled tokens should be gone from the array, the others
  in their order, and the caller's count smaller by the number removed. The second loop
  of the code copies one later token into a marked place without moving the others:
  \<open>[''--bool-param'', ''a'', ''b'']\<close> ends as \<open>[''a'', ''a'', ''b'']\<close>. When the last token
  is handled, the loop reads beyond the array. And whatever the command line, the count
  comes back as it was.
\<close>

theorem parseCommandLine_leaves_argc_and_copies_one_token:
  "parseCommandLine no_float_io (world_of demo_app) 3 (main_argv [''--bool-param'', ''a'', ''b''])
     = Inr (world_of
              (param_assign
                 (param_assign demo_app ''Bool'' ''Param'' (ctkParamData None (VBool False)))
                 ''Special'' ''File'' (ctkParamData (Some File) (VString ''a''))),
            [Some ''a'', Some ''a'', Some ''b'', None], 3) \<and>
   parseCommandLine no_float_io (world_of demo_app) 2 (main_argv [''a'', ''--xml''])
     = Inl OutOfBounds \<and>
   (case parseCommandLine io w argc argv of
      Inl e \<Rightarrow> True
    | Inr (w', argv', argc') \<Rightarrow> argc' = argc)"
proof -
  have "parseCommandLine no_float_io (world_of demo_app) 3 (main_argv [''--bool-param'', ''a'', ''b''])
     = Inr (world_of
              (param_assign
                 (param_assign demo_app ''Bool'' ''Param'' (ctkParamData None (VBool False)))
                 ''Special'' ''File'' (ctkParamData (Some File) (VString ''a''))),
            [Some ''a'', Some ''a'', Some ''b'', None], 3)"
    by code_simp
  moreover have "parseCommandLine no_float_io (world_of demo_app) 2 (main_argv [''a'', ''--xml''])
     = Inl OutOfBounds"
    by code_simp
  moreover have "case parseCommandLine io w argc argv of
      Inl e \<Rightarrow> True
    | Inr (w', argv', argc') \<Rightarrow> argc' = argc"
    by (simp add: parseCommandLine_def split: sum.splits prod.splits)
  ultimately show ?thesis by blast
qed

text \<open>
  Claim C3, as amended. The flag of a boolean parameter negates the stored value when a
  token follows it, and the scan goes on with that token, which is not consumed as a
  value. As the last token it is refused like every flag without a successor: the
  diagnostic is written, the value and the array stay as they are; so a command line
  that is one such flag comes back unchanged.
\<close>

theorem boolean_flag_toggles_when_followed:
  "(i < argc \<and> i \<noteq> argc - 1 \<and> argv_string argv i = Inr cmd \<and>
      cmd \<notin> {''--xml'', ''--help'', ''-h'', ''--ctk-save-ini'', ''--ctk-load-ini''} \<and>
      cmd \<noteq> [] \<and> hd cmd = CHR ''-'' \<and>
      map_of (commandLineFlags (app w)) cmd = Some (sect, key) \<and>
      getParam (app w) sect key = Some p \<and> getType p = ''boolean'' \<longrightarrow>
    (\<exists>b. val p = VBool b \<and>
       scan io argc w argv index i =
         scan io argc (w\<lparr>app := param_assign (app w) sect key (p\<lparr>val := VBool (\<not> b)\<rparr>)\<rparr>)
           (argv[i := None]) index (i + 1))) \<and>
   (i < argc \<and> i = argc - 1 \<and> argv_string argv i = Inr cmd \<and>
      cmd \<notin> {''--xml'', ''--help'', ''-h'', ''--ctk-save-ini'', ''--ctk-load-ini''} \<and>
      cmd \<noteq> [] \<and> hd cmd = CHR ''-'' \<longrightarrow>
    scan io argc w argv index i = Inr (w\<lparr>cerr := cerr w @ expected_value cmd\<rparr>, argv)) \<and>
   (argv_string argv 0 = Inr cmd \<and>
      cmd \<notin> {''--xml'', ''--help'', ''-h'', ''--ctk-save-ini'', ''--ctk-load-ini''} \<and>
      cmd \<noteq> [] \<and> hd cmd = CHR ''-'' \<longrightarrow>
    parseCommandLine io w 1 argv = Inr (w\<lparr>cerr := cerr w @ expected_value cmd\<rparr>, argv, 1))"
proof (intro conjI impI; elim conjE)
  assume h: "i < argc" "i \<noteq> argc - 1" "argv_string argv i = Inr cmd"
    "cmd \<notin> {''--xml'', ''--help'', ''-h'', ''--ctk-save-ini'', ''--ctk-load-ini''}"
    "cmd \<noteq> []" "hd cmd = CHR ''-''"
    "map_of (commandLineFlags (app w)) cmd = Some (sect, key)"
    "getParam (app w) sect key = Some p" "getType p = ''boolean''"
  from h(9) obtain b where b: "cls p = None" "val p = VBool b"
    by (auto simp: getType_boolean)
  from scan_flag_boolean [OF h(1-8) b(2,1)] b(2)
  show "\<exists>b. val p = VBool b \<and>
       scan io argc w argv index i =
         scan io argc (w\<lparr>app := param_assign (app w) sect key (p\<lparr>val := VBool (\<not> b)\<rparr>)\<rparr>)
           (argv[i := None]) index (i + 1)"
    by blast
next
  assume "i < argc" "i = argc - 1" "argv_string argv i = Inr cmd"
    "cmd \<notin> {''--xml'', ''--help'', ''-h'', ''--ctk-save-ini'', ''--ctk-load-ini''}"
    "cmd \<noteq> []" "hd cmd = CHR ''-''"
  then show "scan io argc w argv index i = Inr (w\<lparr>cerr := cerr w @ expected_value cmd\<rparr>, argv)"
    by (rule scan_flag_last)
next
  assume "argv_string argv 0 = Inr cmd"
    "cmd \<notin> {''--xml'', ''--help'', ''-h'', ''--ctk-save-ini'', ''--ctk-load-ini''}"
    "cmd \<noteq> []" "hd cmd = CHR ''-''"
  then show "parseCommandLine io w 1 argv = Inr (w\<lparr>cerr := cerr w @ expected_value cmd\<rparr>, argv, 1)"
    by (rule parseCommandLine_single_flag)
qed

theorem boolean_flag_toggles_when_followed_witness:
  "scan no_float_io 2 (world_of demo_app) (main_argv [''--bool-param'', ''x'']) 0 0
     = Inr (world_of
              (param_assign
                 (param_assign demo_app ''Bool'' ''Param'' (ctkParamData None (VBool False)))
                 ''Special'' ''File'' (ctkParamData (Some File) (VString ''x''))),
            [None, Some ''x'', None]) \<and>
   scan no_float_io 2 (world_of demo_app) (main_argv [''x'', ''--bool-param'']) 1 1
     = Inr ((world_of demo_app)\<lparr>cerr := expected_value ''--bool-param''\<rparr>,
            main_argv [''x'', ''--bool-param'']) \<and>
   parseCommandLine no_float_io (world_of demo_app) 1 (main_argv [''--bool-param''])
     = Inr ((world_of demo_app)\<lparr>cerr := expected_value ''--bool-param''\<rparr>,
            main_argv [''--bool-param''], 1)"
proof -
  let ?p = "ctkParamData None (VBool True) :: (unit, unit) ctkParamDataInterface"
  have n: "''--bool-param'' \<notin> {''--xml'', ''--help'', ''-h'', ''--ctk-save-ini'', ''--ctk-load-ini''}"
    "''--bool-param'' \<noteq> []" "hd ''--bool-param'' = CHR ''-''"
    by simp_all
  have a: "argv_string (main_argv [''--bool-param'', ''x'']) 0 = Inr ''--bool-param''"
    by code_simp
  have f: "map_of (commandLineFlags (app (world_of demo_app))) ''--bool-param''
             = Some (''Bool'', ''Param'')"
    by code_simp
  have g: "getParam (app (world_of demo_app)) ''Bool'' ''Param'' = Some ?p"
    by code_simp
  have t: "getType ?p = ''boolean''"
    by code_simp
  have v: "val ?p = VBool True"
    by (simp add: ctkParamData_def)
  have rest: "scan no_float_io 2
      ((world_of demo_app)\<lparr>app := param_assign (app (world_of demo_app)) ''Bool'' ''Param''
          (?p\<lparr>val := VBool (\<not> True)\<rparr>)\<rparr>)
      ((main_argv [''--bool-param'', ''x''])[0 := None]) 0 (0 + 1)
     = Inr (world_of
              (param_assign
                 (param_assign demo_app ''Bool'' ''Param'' (ctkParamData None (VBool False)))
                 ''Special'' ''File'' (ctkParamData (Some File) (VString ''x''))),
            [None, Some ''x'', None])"
    by code_simp
  note t1 = boolean_flag_toggles_when_followed
    [where i = 0 and argc = 2 and argv = "main_argv [''--bool-param'', ''x'']"
      and cmd = "''--bool-param''" and w = "world_of demo_app" and sect = "''Bool''"
      and key = "''Param''" and p = ?p and io = no_float_io and index = 0]
  from t1 n a f g t obtain b where b: "val ?p = VBool b"
    and sc: "scan no_float_io 2 (world_of demo_app) (main_argv [''--bool-param'', ''x'']) 0 0 =
      scan no_float_io 2
        ((world_of demo_app)\<lparr>app := param_assign (app (world_of demo_app)) ''Bool'' ''Param''
            (?p\<lparr>val := VBool (\<not> b)\<rparr>)\<rparr>)
        ((main_argv [''--bool-param'', ''x''])[0 := None]) 0 (0 + 1)"
    by auto
  from b v have "b = True" by simp
  with sc rest have c1:
    "scan no_float_io 2 (world_of demo_app) (main_argv [''--bool-param'', ''x'']) 0 0
     = Inr (world_of
              (param_assign
                 (param_assign demo_app ''Bool'' ''Param'' (ctkParamData None (VBool False)))
                 ''Special'' ''File'' (ctkParamData (Some File) (VString ''x''))),
            [None, Some ''x'', None])"
    by simp
  have a2: "argv_string (main_argv [''x'', ''--bool-param'']) 1 = Inr ''--bool-param''"
    by code_simp
  note t2 = boolean_flag_toggles_when_followed
    [where i = 1 and argc = 2 and argv = "main_argv [''x'', ''--bool-param'']"
      and cmd = "''--bool-param''" and w = "world_of demo_app" and io = no_float_io and index = 1]
  from t2 n a2 have c2:
    "scan no_float_io 2 (world_of demo_app) (main_argv [''x'', ''--bool-param'']) 1 1
     = Inr ((world_of demo_app)\<lparr>cerr := expected_value ''--bool-param''\<rparr>,
            main_argv [''x'', ''--bool-param''])"
    by (simp add: world_of_def)
  have a3: "argv_string (main_argv [''--bool-param'']) 0 = Inr ''--bool-param''"
    by code_simp
  note t3 = boolean_flag_toggles_when_followed
    [where argv = "main_argv [''--bool-param'']" and cmd = "''--bool-param''"
      and w = "world_of demo_app" and io = no_float_io]
  from t3 n a3 have c3:
    "parseCommandLine no_float_io (world_of demo_app) 1 (main_argv [''--bool-param''])
     = Inr ((world_of demo_app)\<lparr>cerr := expected_value ''--bool-param''\<rparr>,
            main_argv [''--bool-param''], 1)"
    by (simp add: world_of_def)
  from c1 c2 c3 show ?thesis by blast
qed

text \<open>
  The claim as stated fails on its own example: after \<open>[''--bool-param'']\<close> the
  parameter is still true and the token is still in the array.
\<close>

theorem boolean_flag_last_counterexample:
  "parseCommandLine no_float_io (world_of demo_app) 1 (main_argv [''--bool-param''])
     = Inr ((world_of demo_app)\<lparr>cerr := expected_value ''--bool-param''\<rparr>,
            [Some ''--bool-param'', None], 1) \<and>
   getParam demo_app ''Bool'' ''Param'' = Some (ctkParamData None (VBool True))"
  by code_simp

text \<open>
  Claim C4. A flag that no binding matches should be reported and left in the array.
  The code reports it, but it has set \<^verbatim>\<open>argv[i]\<close> to the null pointer before the lookup,
  for every such flag that is not the last token. A positional token whose index no
  binding matches is passed over without a diagnostic. After
  \<open>[''--not-a-flag'', ''x'']\<close> the flag is gone, and the array holds \<open>''x''\<close> twice.
\<close>

theorem scan_unknown_flag_is_marked:
  "(i < argc \<and> i \<noteq> argc - 1 \<and> argv_string argv i = Inr cmd \<and>
      cmd \<notin> {''--xml'', ''--help'', ''-h'', ''--ctk-save-ini'', ''--ctk-load-ini''} \<and>
      cmd \<noteq> [] \<and> hd cmd = CHR ''-'' \<and> map_of (commandLineFlags (app w)) cmd = None \<longrightarrow>
    scan io argc w argv index i =
      scan io argc (w\<lparr>cerr := cerr w @ ''Ignored command line argument '' @ cmd @ ''\<newline>''\<rparr>)
        (argv[i := None]) index (i + 1)) \<and>
   (i < argc \<and> argv_string argv i = Inr cmd \<and> (cmd = [] \<or> hd cmd \<noteq> CHR ''-'') \<and>
      index < 2 ^ 31 \<and>
      map_of (commandLineFlags (app w)) (toString_int (of_nat index)) = None \<longrightarrow>
    scan io argc w argv index i = scan io argc w argv (index + 1) (i + 1))"
  by (intro conjI impI; elim conjE; (rule scan_flag_unknown scan_positional_unknown; assumption))

theorem scan_unknown_flag_is_marked_witness:
  "scan no_float_io 2
     (world_of (ctkCmdLineApplication ''The Big Test'' ''Does absolutely nothing.''))
     (main_argv [''--not-a-flag'', ''x'']) 0 0
   = Inr ((world_of (ctkCmdLineApplication ''The Big Test'' ''Does absolutely nothing.''))
            \<lparr>cerr := ''Ignored command line argument --not-a-flag\<newline>''\<rparr>,
          [None, Some ''x'', None]) \<and>
   parseCommandLine no_float_io
     (world_of (ctkCmdLineApplication ''The Big Test'' ''Does absolutely nothing.''))
     2 (main_argv [''--not-a-flag'', ''x''])
   = Inr ((world_of (ctkCmdLineApplication ''The Big Test'' ''Does absolutely nothing.''))
            \<lparr>cerr := ''Ignored command line argument --not-a-flag\<newline>''\<rparr>,
          [Some ''x'', Some ''x'', None], 2)"
proof -
  let ?w = "world_of (ctkCmdLineApplication ''The Big Test'' ''Does absolutely nothing.'')
              :: (unit, unit) world"
  let ?w' = "?w\<lparr>cerr := ''Ignored command line argument --not-a-flag\<newline>''\<rparr>"
  let ?argv = "main_argv [''--not-a-flag'', ''x'']"
  let ?argv' = "[None, Some ''x'', None]"
  have n: "''--not-a-flag'' \<notin> {''--xml'', ''--help'', ''-h'', ''--ctk-save-ini'', ''--ctk-load-ini''}"
    "''--not-a-flag'' \<noteq> []" "hd ''--not-a-flag'' = CHR ''-''"
    by simp_all
  have a0: "argv_string ?argv 0 = Inr ''--not-a-flag''"
    by code_simp
  have f0: "map_of (commandLineFlags (app ?w)) ''--not-a-flag'' = None"
    by code_simp
  have a1: "argv_string ?argv' 1 = Inr ''x''"
    by code_simp
  have f1: "map_of (commandLineFlags (app ?w')) (toString_int (of_nat 0)) = None"
    by code_simp
  have x: "''x'' = [] \<or> hd ''x'' \<noteq> CHR ''-''"
    by simp
  have w': "?w\<lparr>cerr := cerr ?w @ ''Ignored command line argument '' @ ''--not-a-flag'' @ ''\<newline>''\<rparr> = ?w'"
    by (simp add: world_of_def)
  have av: "?argv[0 := None] = ?argv'"
    by (simp add: main_argv_def)
  from scan_unknown_flag_is_marked
    [where i = 0 and argc = 2 and argv = ?argv and cmd = "''--not-a-flag''" and w = ?w
      and io = no_float_io and index = 0] n a0 f0
  have "scan no_float_io 2 ?w ?argv 0 0 =
          scan no_float_io 2
            (?w\<lparr>cerr := cerr ?w @ ''Ignored command line argument '' @ ''--not-a-flag'' @ ''\<newline>''\<rparr>)
            (?argv[0 := None]) 0 (0 + 1)"
    by simp
  then have s0: "scan no_float_io 2 ?w ?argv 0 0 = scan no_float_io 2 ?w' ?argv' 0 1"
    unfolding w' av by simp
  from scan_unknown_flag_is_marked
    [where i = 1 and argc = 2 and argv = ?argv' and cmd = "''x''" and w = ?w'
      and io = no_float_io and index = 0] a1 f1 x
  have s1: "scan no_float_io 2 ?w' ?argv' 0 1 = scan no_float_io 2 ?w' ?argv' (0 + 1) (1 + 1)"
    by simp
  have e: "scan no_float_io 2 ?w' ?argv' (0 + 1) (1 + 1) = Inr (?w', ?argv')"
    by (subst scan.simps) simp
  have sc: "scan no_float_io 2 ?w ?argv 0 0 = Inr (?w', ?argv')"
    by (simp only: s0 s1 e)
  have c: "compact 2 ?argv' 0 0 = Inr ([Some ''x'', Some ''x'', None], 1)"
    by code_simp
  have "parseCommandLine no_float_io ?w 2 ?argv = Inr (?w', [Some ''x'', Some ''x'', None], 2)"
    by (simp add: parseCommandLine_def sc c)
  with sc show ?thesis by blast
qed

end
